theory Spec2Isabelle
  imports Complex_Main
begin

section \<open>JavaScript numbers\<close>

text \<open>
  A JavaScript number is a finite value, \<open>NaN\<close>, or one of the two infinities.
  Finite values are kept as exact rationals: the operations below do not round to the
  nearest double and never overflow, and the two zeros are not told apart.
\<close>

datatype number = Num rat | NaN | PosInf | NegInf

fun isNaN :: "number \<Rightarrow> bool" where
  "isNaN NaN = True"
| "isNaN _ = False"

fun js_neg :: "number \<Rightarrow> number" where
  "js_neg (Num a) = Num (- a)"
| "js_neg NaN = NaN"
| "js_neg PosInf = NegInf"
| "js_neg NegInf = PosInf"

fun js_add :: "number \<Rightarrow> number \<Rightarrow> number" where
  "js_add (Num a) (Num b) = Num (a + b)"
| "js_add NaN _ = NaN"
| "js_add _ NaN = NaN"
| "js_add PosInf NegInf = NaN"
| "js_add NegInf PosInf = NaN"
| "js_add PosInf _ = PosInf"
| "js_add _ PosInf = PosInf"
| "js_add NegInf _ = NegInf"
| "js_add _ NegInf = NegInf"

definition js_sub :: "number \<Rightarrow> number \<Rightarrow> number" where
  "js_sub x y = js_add x (js_neg y)"

fun js_mul :: "number \<Rightarrow> number \<Rightarrow> number" where
  "js_mul (Num a) (Num b) = Num (a * b)"
| "js_mul NaN _ = NaN"
| "js_mul _ NaN = NaN"
| "js_mul (Num a) y = (if a = 0 then NaN else if 0 < a then y else js_neg y)"
| "js_mul x (Num b) = (if b = 0 then NaN else if 0 < b then x else js_neg x)"
| "js_mul PosInf y = y"
| "js_mul NegInf y = js_neg y"

fun js_div :: "number \<Rightarrow> number \<Rightarrow> number" where
  "js_div (Num a) (Num b) =
     (if b = 0 then (if a = 0 then NaN else if 0 < a then PosInf else NegInf)
      else Num (a / b))"
| "js_div NaN _ = NaN"
| "js_div _ NaN = NaN"
| "js_div (Num a) _ = Num 0"
| "js_div x (Num b) = (if 0 \<le> b then x else js_neg x)"
| "js_div _ _ = NaN"

text \<open>
  The remainder operator \<open>%\<close> on finite numbers with a divisor other than zero truncates
  the quotient: the result has the sign of the dividend.
\<close>

definition trunc :: "rat \<Rightarrow> int" where
  "trunc q = (if 0 \<le> q then \<lfloor>q\<rfloor> else \<lceil>q\<rceil>)"

definition rat_rem :: "rat \<Rightarrow> rat \<Rightarrow> rat" where
  "rat_rem a b = a - b * of_int (trunc (a / b))"

fun js_lt :: "number \<Rightarrow> number \<Rightarrow> bool" where
  "js_lt NaN _ = False"
| "js_lt _ NaN = False"
| "js_lt (Num a) (Num b) = (a < b)"
| "js_lt _ NegInf = False"
| "js_lt NegInf _ = True"
| "js_lt PosInf _ = False"
| "js_lt _ PosInf = True"

definition js_le :: "number \<Rightarrow> number \<Rightarrow> bool" where
  "js_le x y = (\<not> isNaN x \<and> \<not> isNaN y \<and> \<not> js_lt y x)"

definition js_gt :: "number \<Rightarrow> number \<Rightarrow> bool" where
  "js_gt x y = js_lt y x"

definition js_ge :: "number \<Rightarrow> number \<Rightarrow> bool" where
  "js_ge x y = js_le y x"

definition Math_max :: "number \<Rightarrow> number \<Rightarrow> number" where
  "Math_max x y = (if isNaN x \<or> isNaN y then NaN else if js_lt x y then y else x)"

definition Math_min :: "number \<Rightarrow> number \<Rightarrow> number" where
  "Math_min x y = (if isNaN x \<or> isNaN y then NaN else if js_lt y x then y else x)"

section \<open>JavaScript strings and the conversions between strings and numbers\<close>

text \<open>
  Strings are lists of characters. Only ASCII white space is modelled (tab, line feed,
  vertical tab, form feed, carriage return, space).
\<close>

definition isWhiteSpace :: "char \<Rightarrow> bool" where
  "isWhiteSpace c = ((of_char c :: int) \<in> set [9, 10, 11, 12, 13, 32])"

definition isDigit :: "char \<Rightarrow> bool" where
  "isDigit c = (48 \<le> (of_char c :: int) \<and> (of_char c :: int) \<le> 57)"

definition digit_val :: "char \<Rightarrow> int" where
  "digit_val c = of_char c - 48"

definition digit_char :: "int \<Rightarrow> char" where
  "digit_char d = char_of (48 + d)"

text \<open>The decimal numeral of a non-negative integer, most significant digit first.\<close>

function digits :: "int \<Rightarrow> string" where
  "digits n = (if n < 10 then [digit_char n] else digits (n div 10) @ [digit_char (n mod 10)])"
  by pat_completeness auto
termination
  by (relation "measure nat") auto

declare digits.simps [simp del]

definition digits_val :: "string \<Rightarrow> int" where
  "digits_val ds = foldl (\<lambda>a c. 10 * a + digit_val c) 0 ds"

text \<open>\<open>String.prototype.padStart(n, c)\<close> with a one-character filler.\<close>

definition padStart :: "nat \<Rightarrow> char \<Rightarrow> string \<Rightarrow> string" where
  "padStart n c s = replicate (n - length s) c @ s"

text \<open>
  \<open>Number.prototype.toString()\<close> on an integer-valued number: the decimal numeral, and
  from \<open>10^21\<close> on the exponent form \<open>d.ddde+n\<close> (trailing zeros of the digit string
  dropped; a double shows the shortest digit string that reads back as itself).
\<close>

definition toString_int :: "int \<Rightarrow> string" where
  "toString_int i =
     (let n = \<bar>i\<bar>;
          body =
            (if n < 10 ^ 21 then digits n
             else (let ds = digits n;
                       sig = rev (dropWhile (\<lambda>c. c = CHR ''0'') (rev ds))
                   in (case sig of
                         [] \<Rightarrow> ds
                       | d # rest \<Rightarrow>
                           d # (if rest = [] then [] else CHR ''.'' # rest)
                             @ ''e+'' @ digits (int (length ds) - 1))))
      in if i < 0 then CHR ''-'' # body else body)"

text \<open>
  \<open>Number.prototype.toFixed(f)\<close> on a finite number below \<open>10^21\<close> in magnitude: the
  integer \<open>n\<close> with \<open>n / 10^f\<close> nearest to the value (the larger of two nearest), written
  with at least \<open>f + 1\<close> digits and a point before the last \<open>f\<close>.
\<close>

definition toFixed :: "nat \<Rightarrow> rat \<Rightarrow> string" where
  "toFixed f x =
     (let y = \<bar>x\<bar>;
          n = \<lfloor>y * 10 ^ f + 1 / 2\<rfloor>;
          m = padStart (f + 1) CHR ''0'' (digits n);
          k = length m
      in (if x < 0 then ''-'' else '''')
         @ take (k - f) m @ (if f = 0 then [] else CHR ''.'' # drop (k - f) m))"

text \<open>
  \<open>parseFloat\<close>: leading white space is skipped and the longest prefix that is a decimal
  literal is read: an optional sign, then \<open>Infinity\<close>, or digits with an optional
  fraction, or a fraction alone, then an optional exponent. No such prefix gives \<open>NaN\<close>.
\<close>

definition read_sign :: "string \<Rightarrow> bool \<times> string" where
  "read_sign s =
     (case s of
        [] \<Rightarrow> (False, [])
      | c # r \<Rightarrow> if c = CHR ''-'' then (True, r) else if c = CHR ''+'' then (False, r) else (False, s))"

definition read_exponent :: "string \<Rightarrow> int" where
  "read_exponent s =
     (case s of
        [] \<Rightarrow> 0
      | c # r \<Rightarrow>
          if c = CHR ''e'' \<or> c = CHR ''E'' then
            (let (neg, r') = read_sign r; ds = takeWhile isDigit r'
             in if ds = [] then 0
                else if neg then - digits_val ds else digits_val ds)
          else 0)"

definition scale10 :: "rat \<Rightarrow> int \<Rightarrow> rat" where
  "scale10 q e = (if 0 \<le> e then q * 10 ^ nat e else q / 10 ^ nat (- e))"

definition parseFloat :: "string \<Rightarrow> number" where
  "parseFloat s =
     (let (neg, r) = read_sign (dropWhile isWhiteSpace s)
      in if take 8 r = ''Infinity'' then (if neg then NegInf else PosInf)
         else
           (let ip = takeWhile isDigit r;
                r1 = dropWhile isDigit r;
                (fp, r2) = (case r1 of
                              [] \<Rightarrow> ([], [])
                            | c # r' \<Rightarrow> if c = CHR ''.''
                                        then (takeWhile isDigit r', dropWhile isDigit r')
                                        else ([], r1))
            in if ip = [] \<and> fp = [] then NaN
               else
                 (let mant = of_int (digits_val ip) + of_int (digits_val fp) / 10 ^ length fp;
                      v = scale10 mant (read_exponent r2)
                  in Num (if neg then - v else v))))"

text \<open>\<open>String.prototype.replace(a, b)\<close> with string arguments replaces the first occurrence only.\<close>

fun replace_first :: "char \<Rightarrow> char \<Rightarrow> string \<Rightarrow> string" where
  "replace_first a b [] = []"
| "replace_first a b (c # cs) = (if c = a then b # cs else c # replace_first a b cs)"

definition trim :: "string \<Rightarrow> string" where
  "trim s = rev (dropWhile isWhiteSpace (rev (dropWhile isWhiteSpace s)))"

fun split :: "char \<Rightarrow> string \<Rightarrow> string list" where
  "split d [] = [[]]"
| "split d (c # cs) =
     (if c = d then [] # split d cs
      else (case split d cs of [] \<Rightarrow> [[c]] | p # ps \<Rightarrow> (c # p) # ps))"

section \<open>utils.ts\<close>

text \<open>The argument of \<open>parseTime\<close> is \<open>string | number | undefined\<close>.\<close>

datatype time_input = Undefined | TNumber number | TString string

fun parseTime :: "time_input \<Rightarrow> number" where
  "parseTime Undefined = Num 0"
| "parseTime (TNumber n) = n"
| "parseTime (TString timeStr) =
     (let normalized = trim (replace_first CHR '','' CHR ''.'' timeStr)
      in if normalized = [] then Num 0
         else if CHR '':'' \<notin> set normalized then
           (let val = parseFloat normalized in if isNaN val then Num 0 else val)
         else
           (let parts = map parseFloat (split CHR '':'' normalized)
            in if list_ex isNaN parts then Num 0
               else (case parts of
                       [p0, p1, p2] \<Rightarrow>
                         js_add (js_add (js_mul p0 (Num 3600)) (js_mul p1 (Num 60))) p2
                     | [p0, p1] \<Rightarrow> js_add (js_mul p0 (Num 60)) p1
                     | [p0] \<Rightarrow> p0
                     | _ \<Rightarrow> Num 0)))"

text \<open>
  \<open>formatTime\<close> returns the zero text for a number that is not finite or is negative.
  Past that guard \<open>seconds\<close> is a finite number that is not negative, \<open>h\<close> and \<open>m\<close> are
  whole numbers, and \<open>s\<close> lies between 0 and 60.
\<close>

fun formatTime :: "number \<Rightarrow> string" where
  "formatTime (Num seconds) =
     (if seconds < 0 then ''00:00:00.000''
      else
        (let h = \<lfloor>seconds / 3600\<rfloor>;
             m = \<lfloor>rat_rem seconds 3600 / 60\<rfloor>;
             s = rat_rem seconds 60;
             sFormatted = padStart 6 CHR ''0'' (toFixed 3 s)
         in padStart 2 CHR ''0'' (toString_int h) @ '':''
            @ padStart 2 CHR ''0'' (toString_int m) @ '':'' @ sFormatted))"
| "formatTime _ = ''00:00:00.000''"

section \<open>types.ts\<close>

datatype AnimationType = NONE | FADE_IN | SLIDE_UP | SCALE_UP | KARAOKE_HIGHLIGHT

record StyleConfig =
  fontFamily :: string
  fontSize :: number
  textColor :: string
  borderColor :: string
  borderWidth :: number
  backgroundColor :: string
  backgroundOpacity :: number
  animationType :: AnimationType
  positionY :: number
  positionX :: number
  fontWeight :: string

text \<open>
  \<open>Partial<StyleConfig>\<close>: every field may be absent. (A field that is present always
  holds a value: the program never stores \<open>undefined\<close> under a style key.)
\<close>

record PartialStyle =
  p_fontFamily :: "string option"
  p_fontSize :: "number option"
  p_textColor :: "string option"
  p_borderColor :: "string option"
  p_borderWidth :: "number option"
  p_backgroundColor :: "string option"
  p_backgroundOpacity :: "number option"
  p_animationType :: "AnimationType option"
  p_positionY :: "number option"
  p_positionX :: "number option"
  p_fontWeight :: "string option"

definition no_style :: PartialStyle where
  "no_style =
     \<lparr>p_fontFamily = None, p_fontSize = None, p_textColor = None, p_borderColor = None,
      p_borderWidth = None, p_backgroundColor = None, p_backgroundOpacity = None,
      p_animationType = None, p_positionY = None, p_positionX = None, p_fontWeight = None\<rparr>"

text \<open>
  The fields of \<open>Caption\<close> carry the prefix \<open>c_\<close> (\<open>id\<close>, \<open>end\<close> and \<open>text\<close> are taken
  in Isabelle). \<open>c_style = None\<close> is a caption without a \<open>style\<close> property.
\<close>

record Caption =
  c_id :: string
  c_start :: string
  c_end :: string
  c_text :: string
  c_style :: "PartialStyle option"

text \<open>
  \<open>Partial<Caption>\<close>, the argument of \<open>onCaptionChange\<close>. The style reset passes
  \<open>{ style: undefined }\<close>, a present key with no value: \<open>u_style = Some None\<close>.
\<close>

record CaptionUpdate =
  u_id :: "string option"
  u_start :: "string option"
  u_end :: "string option"
  u_text :: "string option"
  u_style :: "PartialStyle option option"

definition no_update :: CaptionUpdate where
  "no_update = \<lparr>u_id = None, u_start = None, u_end = None, u_text = None, u_style = None\<rparr>"

datatype Status = Idle | Uploading | Transcribing | Success | Error

record ProcessingState =
  status :: Status
  message :: "string option"

section \<open>utils.ts: the effective style\<close>

text \<open>The object spread \<open>{ ...globalStyle, ...caption.style }\<close>: a key of the second object wins.\<close>

definition spread_field :: "'a \<Rightarrow> 'a option \<Rightarrow> 'a" where
  "spread_field g ov = (case ov of None \<Rightarrow> g | Some v \<Rightarrow> v)"

definition spread_style :: "StyleConfig \<Rightarrow> PartialStyle \<Rightarrow> StyleConfig" where
  "spread_style g ov =
     \<lparr>fontFamily = spread_field (fontFamily g) (p_fontFamily ov),
      fontSize = spread_field (fontSize g) (p_fontSize ov),
      textColor = spread_field (textColor g) (p_textColor ov),
      borderColor = spread_field (borderColor g) (p_borderColor ov),
      borderWidth = spread_field (borderWidth g) (p_borderWidth ov),
      backgroundColor = spread_field (backgroundColor g) (p_backgroundColor ov),
      backgroundOpacity = spread_field (backgroundOpacity g) (p_backgroundOpacity ov),
      animationType = spread_field (animationType g) (p_animationType ov),
      positionY = spread_field (positionY g) (p_positionY ov),
      positionX = spread_field (positionX g) (p_positionX ov),
      fontWeight = spread_field (fontWeight g) (p_fontWeight ov)\<rparr>"

definition getEffectiveStyle :: "StyleConfig \<Rightarrow> Caption option \<Rightarrow> StyleConfig" where
  "getEffectiveStyle globalStyle caption =
     (case caption of
        None \<Rightarrow> globalStyle
      | Some c \<Rightarrow>
          (case c_style c of
             None \<Rightarrow> globalStyle
           | Some st \<Rightarrow> spread_style globalStyle st))"

section \<open>components/Timeline.tsx\<close>

datatype DragType = Move | ResizeLeft | ResizeRight | Playhead

text \<open>The \<open>dragging\<close> state; \<open>id\<close>, \<open>initialStart\<close> and \<open>initialEnd\<close> are optional.\<close>

record Dragging =
  d_id :: "string option"
  d_type :: DragType
  startX :: number
  initialStart :: "number option"
  initialEnd :: "number option"

text \<open>What the handlers read from \<open>containerRef.current\<close>.\<close>

record Container =
  rect_left :: number
  scrollLeft :: number

text \<open>The callbacks a handler invokes.\<close>

datatype Callback = OnSeek number | OnCaptionChange string CaptionUpdate

definition handleZoom :: "number \<Rightarrow> number \<Rightarrow> number" where
  "handleZoom prev delta = Math_max (Num 10) (Math_min (Num 300) (js_add prev delta))"

definition pixelsToTime :: "number \<Rightarrow> number \<Rightarrow> number" where
  "pixelsToTime zoom px = js_div px zoom"

definition maxCaptionTime :: "Caption list \<Rightarrow> number" where
  "maxCaptionTime captions =
     foldl (\<lambda>mx c. Math_max mx (parseTime (TString (c_end c)))) (Num 0) captions"

text \<open>\<open>duration || 0\<close>: zero and \<open>NaN\<close> are falsy.\<close>

definition effectiveDuration :: "number \<Rightarrow> Caption list \<Rightarrow> number" where
  "effectiveDuration duration captions =
     Math_max (if duration = Num 0 \<or> isNaN duration then Num 0 else duration)
              (js_add (maxCaptionTime captions) (Num 5))"

definition handleMouseDown ::
  "number \<Rightarrow> string \<Rightarrow> DragType \<Rightarrow> number \<Rightarrow> number \<Rightarrow> Dragging" where
  "handleMouseDown clientX ident ty start end' =
     \<lparr>d_id = Some ident, d_type = ty, startX = clientX,
      initialStart = Some start, initialEnd = Some end'\<rparr>"

text \<open>
  The handlers the rendered caption block installs: the caption's parsed \<open>start\<close> and
  \<open>end\<close> are the drag's initial span.
\<close>

definition caption_onMouseDown :: "Caption \<Rightarrow> DragType \<Rightarrow> number \<Rightarrow> Dragging" where
  "caption_onMouseDown caption ty clientX =
     (let start = parseTime (TString (c_start caption));
          end' = parseTime (TString (c_end caption))
      in handleMouseDown clientX (c_id caption) ty start end')"

definition handleMouseMove ::
  "number \<Rightarrow> Container option \<Rightarrow> number \<Rightarrow> Dragging option \<Rightarrow> number \<Rightarrow> Callback option" where
  "handleMouseMove zoom container effDuration dragging clientX =
     (case dragging of
        None \<Rightarrow> None
      | Some d \<Rightarrow>
          if d_type d = Playhead then
            (case container of
               None \<Rightarrow> None
             | Some c \<Rightarrow>
                 (let offsetX = js_add (js_sub clientX (rect_left c)) (scrollLeft c);
                      newTime = Math_max (Num 0) (Math_min effDuration (pixelsToTime zoom offsetX))
                  in Some (OnSeek newTime)))
          else
            (case (d_id d, initialStart d, initialEnd d) of
               (Some ident, Some iStart, Some iEnd) \<Rightarrow>
                 if ident = [] then None
                 else
                   (let deltaPixels = js_sub clientX (startX d);
                        deltaTime = pixelsToTime zoom deltaPixels;
                        (newStart, newEnd) =
                          (if d_type d = Move then
                             (let newStart = Math_max (Num 0) (js_add iStart deltaTime)
                              in (newStart,
                                  Math_max (js_add newStart (Num (1 / 10))) (js_add iEnd deltaTime)))
                           else if d_type d = ResizeLeft then
                             (Math_max (Num 0)
                                (Math_min (js_sub iEnd (Num (2 / 10))) (js_add iStart deltaTime)),
                              iEnd)
                           else if d_type d = ResizeRight then
                             (iStart, Math_max (js_add iStart (Num (2 / 10))) (js_add iEnd deltaTime))
                           else (iStart, iEnd))
                    in Some (OnCaptionChange ident
                               (no_update\<lparr>u_start := Some (formatTime newStart),
                                           u_end := Some (formatTime newEnd)\<rparr>)))
             | _ \<Rightarrow> None))"

section \<open>components/VideoPlayer.tsx\<close>

definition findCaptionAtTime :: "Caption list \<Rightarrow> number \<Rightarrow> Caption option" where
  "findCaptionAtTime captions time =
     find (\<lambda>c. let start = parseTime (TString (c_start c));
                    end' = parseTime (TString (c_end c))
                in js_ge time start \<and> js_le time end') captions"

text \<open>
  One pass of the \<open>render\<close> loop, as the list of drawing calls it makes. \<open>ready\<close> stands
  for \<open>video && canvas && ctx\<close>; the canvas takes the video's size first.
\<close>

record RenderInput =
  ready :: bool
  videoWidth :: number
  videoHeight :: number
  canvasWidth :: number
  canvasHeight :: number
  liveTime :: number

datatype DrawCall =
    DrawImage number number
  | DrawCaption string number number StyleConfig

definition render :: "StyleConfig \<Rightarrow> Caption list \<Rightarrow> RenderInput \<Rightarrow> DrawCall list" where
  "render styleConfig captions r =
     (if \<not> ready r then []
      else
        (let resize = (videoWidth r \<noteq> Num 0 \<and> \<not> isNaN (videoWidth r)
                       \<and> (canvasWidth r \<noteq> videoWidth r \<or> canvasHeight r \<noteq> videoHeight r));
             w = (if resize then videoWidth r else canvasWidth r);
             h = (if resize then videoHeight r else canvasHeight r)
         in if js_gt w (Num 0) \<and> js_gt h (Num 0) then
              DrawImage w h #
                (case findCaptionAtTime captions (liveTime r) of
                   None \<Rightarrow> []
                 | Some activeCaption \<Rightarrow>
                     [DrawCaption (c_text activeCaption) w h
                        (getEffectiveStyle styleConfig (Some activeCaption))])
            else []))"

section \<open>App.tsx: the caption list\<close>

text \<open>
  \<open>Array.prototype.sort\<close> with a comparator: a stable sort, an element going before
  another exactly when the comparator is negative on the pair.
\<close>

fun insert_sorted :: "('a \<Rightarrow> 'a \<Rightarrow> number) \<Rightarrow> 'a \<Rightarrow> 'a list \<Rightarrow> 'a list" where
  "insert_sorted cmp x [] = [x]"
| "insert_sorted cmp x (y # ys) =
     (if js_lt (cmp x y) (Num 0) then x # y # ys else y # insert_sorted cmp x ys)"

definition sort_with :: "('a \<Rightarrow> 'a \<Rightarrow> number) \<Rightarrow> 'a list \<Rightarrow> 'a list" where
  "sort_with cmp xs = foldl (\<lambda>acc x. insert_sorted cmp x acc) [] xs"

definition by_start :: "Caption \<Rightarrow> Caption \<Rightarrow> number" where
  "by_start a b = js_sub (parseTime (TString (c_start a))) (parseTime (TString (c_start b)))"

text \<open>\<open>now\<close> is the value of \<open>Date.now()\<close>.\<close>

definition handleAddCaption :: "number \<Rightarrow> number \<Rightarrow> int \<Rightarrow> Caption list \<Rightarrow> Caption list" where
  "handleAddCaption currentTime duration now prev =
     (let start = currentTime;
          end' = Math_min duration (js_add start (Num 2));
          newCaption =
            \<lparr>c_id = ''manual-'' @ toString_int now,
             c_start = formatTime start,
             c_end = formatTime end',
             c_text = ''New Caption'',
             c_style = None\<rparr>
      in sort_with by_start (prev @ [newCaption]))"

definition handleSplitCaption :: "string \<Rightarrow> Caption list \<Rightarrow> Caption list" where
  "handleSplitCaption ident captions =
     (case find (\<lambda>c. c_id c = ident) captions of
        None \<Rightarrow> captions
      | Some captionToSplit \<Rightarrow>
          (let start = parseTime (TString (c_start captionToSplit));
               end' = parseTime (TString (c_end captionToSplit));
               mid = js_add start (js_div (js_sub end' start) (Num 2));
               part1 = captionToSplit\<lparr>c_end := formatTime mid\<rparr>;
               part2 = captionToSplit
                         \<lparr>c_id := c_id captionToSplit @ ''-split'',
                          c_start := formatTime mid,
                          c_text := c_text captionToSplit @ '' (Part 2)''\<rparr>
           in sort_with by_start
                (map (\<lambda>c. if c_id c = ident then part1 else c) captions @ [part2])))"

text \<open>The spread \<open>{ ...c, ...updates }\<close>.\<close>

definition apply_updates :: "Caption \<Rightarrow> CaptionUpdate \<Rightarrow> Caption" where
  "apply_updates c u =
     \<lparr>c_id = spread_field (c_id c) (u_id u),
      c_start = spread_field (c_start c) (u_start u),
      c_end = spread_field (c_end c) (u_end u),
      c_text = spread_field (c_text c) (u_text u),
      c_style = spread_field (c_style c) (u_style u)\<rparr>"

definition handleCaptionChange :: "string \<Rightarrow> CaptionUpdate \<Rightarrow> Caption list \<Rightarrow> Caption list" where
  "handleCaptionChange ident updates prev =
     map (\<lambda>c. if c_id c = ident then apply_updates c updates else c) prev"

definition onCaptionDelete :: "string \<Rightarrow> Caption list \<Rightarrow> Caption list" where
  "onCaptionDelete ident prev = filter (\<lambda>c. c_id c \<noteq> ident) prev"

section \<open>App.tsx: the export\<close>

text \<open>
  The state \<open>handleExport\<close> works on: the video element, the media recorder with the
  \<open>chunks\<close> array of its handlers, the React state, the files handed to the browser for
  download, and the tasks queued on the event loop. \<open>trace\<close> records the calls made on
  the video element and the recorder, and the events they answer with, in order.
\<close>

type_synonym blob = "nat list"

datatype Action =
    RecorderStart
  | SetCurrentTime number
  | SetMuted bool
  | Seeked
  | Play
  | Ended
  | RecorderStop

datatype Task = FireDataAvailable blob | FireStop

datatype RecordingState = Inactive | Recording

datatype Exception = PlayError | InvalidStateError

record Video =
  currentTime :: number
  muted :: bool
  playbackRate :: number
  onended :: bool
  duration :: number

record World =
  player :: bool
  video :: Video
  recorder :: RecordingState
  captured :: blob
  chunks :: "blob list"
  processing :: ProcessingState
  isPlaying :: bool
  state_currentTime :: number
  downloads :: "(string \<times> blob list) list"
  tasks :: "Task list"
  trace :: "Action list"

text \<open>
  What the video element and the recorder do during one export. In every scenario the
  recorder could be created and started, and the events the function waits for arrive
  (without \<open>seeked\<close> or \<open>ended\<close> it stays suspended and the export does not end). In
  \<open>RecorderStopsEarly\<close> the recorder stops by itself while the video plays.
\<close>

datatype Scenario =
    PlaysToEnd
  | PlayRejected
  | RecorderStopsEarly

definition setProcessing :: "Status \<Rightarrow> string \<Rightarrow> World \<Rightarrow> World" where
  "setProcessing st msg w = w\<lparr>processing := \<lparr>status = st, message = Some msg\<rparr>\<rparr>"

definition set_currentTime :: "number \<Rightarrow> World \<Rightarrow> World" where
  "set_currentTime t w =
     w\<lparr>video := (video w)\<lparr>currentTime := t\<rparr>, trace := trace w @ [SetCurrentTime t]\<rparr>"

definition set_muted :: "bool \<Rightarrow> World \<Rightarrow> World" where
  "set_muted b w = w\<lparr>video := (video w)\<lparr>muted := b\<rparr>, trace := trace w @ [SetMuted b]\<rparr>"

text \<open>\<open>new MediaRecorder(stream, ...)\<close> with a fresh, empty \<open>chunks\<close> array for its handlers.\<close>

definition new_MediaRecorder :: "World \<Rightarrow> World" where
  "new_MediaRecorder w = w\<lparr>recorder := Inactive, chunks := []\<rparr>"

definition mediaRecorder_start :: "World \<Rightarrow> World" where
  "mediaRecorder_start w = w\<lparr>recorder := Recording, trace := trace w @ [RecorderStart]\<rparr>"

text \<open>
  \<open>MediaRecorder.stop()\<close> on an inactive recorder throws \<open>InvalidStateError\<close> (browsers
  that follow the later revision of the recording API return silently instead; only the
  scenario \<open>RecorderStopsEarly\<close> meets an inactive recorder). Otherwise it returns at once,
  and the recorder queues a task that delivers the data gathered so far and then fires
  \<open>stop\<close>: the two handlers run after the code that called \<open>stop()\<close> has run to its end.
\<close>

definition mediaRecorder_stop :: "World \<Rightarrow> Exception option \<times> World" where
  "mediaRecorder_stop w =
     (if recorder w = Inactive then (Some InvalidStateError, w)
      else (None, w\<lparr>recorder := Inactive,
                     tasks := tasks w @ [FireDataAvailable (captured w), FireStop],
                     trace := trace w @ [RecorderStop]\<rparr>))"

definition ondataavailable :: "blob \<Rightarrow> World \<Rightarrow> World" where
  "ondataavailable data w = (if 0 < length data then w\<lparr>chunks := chunks w @ [data]\<rparr> else w)"

text \<open>
  \<open>onstop\<close> closes over the \<open>currentTime\<close> of the React state as it was when
  \<open>handleExport\<close> was called.
\<close>

definition onstop :: "number \<Rightarrow> World \<Rightarrow> World" where
  "onstop closure_currentTime w =
     (let w1 = w\<lparr>downloads := downloads w @ [(''captioned_video.webm'', chunks w)]\<rparr>;
          w2 = setProcessing Success ''Video exported successfully!'' w1;
          w3 = set_currentTime closure_currentTime w2;
          w4 = set_muted False w3
      in w4\<lparr>video := (video w4)\<lparr>playbackRate := Num 1\<rparr>\<rparr>)"

fun run_task :: "number \<Rightarrow> Task \<Rightarrow> World \<Rightarrow> World" where
  "run_task ct (FireDataAvailable data) w = ondataavailable data w"
| "run_task ct FireStop w = onstop ct w"

definition run_tasks :: "number \<Rightarrow> World \<Rightarrow> World" where
  "run_tasks ct w = foldl (\<lambda>w' t. run_task ct t w') (w\<lparr>tasks := []\<rparr>) (tasks w)"

text \<open>The video element acknowledges the seek: \<open>seeked\<close> fires and \<open>onSeek\<close> resumes the function.\<close>

definition await_seeked :: "World \<Rightarrow> World" where
  "await_seeked w = w\<lparr>trace := trace w @ [Seeked]\<rparr>"

text \<open>\<open>await video.play()\<close>: the promise is fulfilled, or rejected.\<close>

definition video_play :: "Scenario \<Rightarrow> World \<Rightarrow> Exception option \<times> World" where
  "video_play sc w =
     (let w1 = w\<lparr>trace := trace w @ [Play]\<rparr>
      in if sc = PlayRejected then (Some PlayError, w1) else (None, w1))"

text \<open>
  Waiting for \<open>ended\<close>: the video plays to its end. In the scenario \<open>RecorderStopsEarly\<close>
  the recorder stops by itself meanwhile and its queued events are handled before \<open>ended\<close>.
\<close>

definition await_ended :: "Scenario \<Rightarrow> number \<Rightarrow> World \<Rightarrow> World" where
  "await_ended sc ct w =
     (let w1 = w\<lparr>video := (video w)\<lparr>onended := True\<rparr>\<rparr>;
          w2 = (if sc = RecorderStopsEarly
                then run_tasks ct
                       (w1\<lparr>recorder := Inactive,
                           tasks := tasks w1 @ [FireDataAvailable (captured w1), FireStop]\<rparr>)
                else w1)
      in w2\<lparr>video := (video w2)\<lparr>currentTime := duration (video w2)\<rparr>,
            trace := trace w2 @ [Ended]\<rparr>)"

text \<open>
  The body of \<open>handleExport\<close>, up to the end of its \<open>finally\<close> block. The result carries
  the exception the function ends with, if any.
\<close>

definition handleExport_body :: "Scenario \<Rightarrow> World \<Rightarrow> Exception option \<times> World" where
  "handleExport_body sc w0 =
     (if \<not> player w0 then (None, w0)
      else
        (let closure_currentTime = state_currentTime w0;
             w1 = setProcessing Transcribing ''Rendering video... Do not close this tab.'' w0;
             w2 = w1\<lparr>isPlaying := False\<rparr>;
             w3 = new_MediaRecorder w2;
             w4 = mediaRecorder_start w3;
             originalTime = currentTime (video w4);
             originalMuted = muted (video w4);
             w5 = set_currentTime (Num 0) w4;
             w6 = set_muted True w5;
             w7 = await_seeked w6;
             (thrown, w8) =
               (case video_play sc w7 of
                  (Some e, w) \<Rightarrow> (Some e, w)
                | (None, w) \<Rightarrow> mediaRecorder_stop (await_ended sc closure_currentTime w));
             (thrown', w9) =
               (case thrown of
                  None \<Rightarrow> (None, w8)
                | Some e \<Rightarrow>
                    mediaRecorder_stop (setProcessing Error ''Export failed during rendering.'' w8));
             w10 = w9\<lparr>video := (video w9)\<lparr>onended := False\<rparr>\<rparr>;
             w11 = set_muted originalMuted w10;
             w12 = set_currentTime originalTime w11
         in (thrown', w12)))"

text \<open>One export: the body, and then the tasks it left on the event loop.\<close>

definition handleExport :: "Scenario \<Rightarrow> World \<Rightarrow> World" where
  "handleExport sc w0 = run_tasks (state_currentTime w0) (snd (handleExport_body sc w0))"

section \<open>Predicates used in the statements\<close>

text \<open>The closed interval from a caption's parsed \<open>start\<close> to its parsed \<open>end\<close> contains \<open>t\<close>.\<close>

definition covers :: "Caption \<Rightarrow> number \<Rightarrow> bool" where
  "covers c t = (js_le (parseTime (TString (c_start c))) t \<and> js_le t (parseTime (TString (c_end c))))"

fun isDrawCaption :: "DrawCall \<Rightarrow> bool" where
  "isDrawCaption (DrawCaption _ _ _ _) = True"
| "isDrawCaption _ = False"

text \<open>
  The size of the canvas at the time the frame is drawn: the size of the video when
  \<open>render\<close> has just resized the canvas, and the size the canvas had otherwise.
\<close>

definition canvas_size :: "RenderInput \<Rightarrow> number \<times> number" where
  "canvas_size r =
     (if videoWidth r \<noteq> Num 0 \<and> \<not> isNaN (videoWidth r)
         \<and> (canvasWidth r \<noteq> videoWidth r \<or> canvasHeight r \<noteq> videoHeight r)
      then (videoWidth r, videoHeight r) else (canvasWidth r, canvasHeight r))"

section \<open>Rounding to milliseconds\<close>

text \<open>The multiple of 0.001 nearest to \<open>x\<close>, the larger of two nearest: what \<open>toFixed(3)\<close> shows.\<close>

definition round_ms :: "rat \<Rightarrow> rat" where
  "round_ms x = of_int \<lfloor>x * 1000 + 1 / 2\<rfloor> / 1000"

section \<open>Order of events in a trace\<close>

text \<open>\<open>precedes a b xs\<close>: \<open>b\<close> occurs in \<open>xs\<close> somewhere after the first \<open>a\<close>.\<close>

definition precedes :: "'a \<Rightarrow> 'a \<Rightarrow> 'a list \<Rightarrow> bool" where
  "precedes a b xs = (case dropWhile (\<lambda>x. x \<noteq> a) xs of [] \<Rightarrow> False | _ # rest \<Rightarrow> b \<in> set rest)"

section \<open>Example inputs\<close>

text \<open>
  An export requested while the video plays: the video element is at 5.3 s, the React
  state still holds 5.1 s from the last \<open>timeupdate\<close>; the recorder will have gathered
  three bytes when it is stopped.
\<close>

definition export_example :: World where
  "export_example =
     \<lparr>player = True,
      video = \<lparr>currentTime = Num (53 / 10), muted = False, playbackRate = Num 1,
               onended = False, duration = Num 12\<rparr>,
      recorder = Inactive, captured = [1, 2, 3], chunks = [],
      processing = \<lparr>status = Idle, message = None\<rparr>, isPlaying = True,
      state_currentTime = Num (51 / 10), downloads = [], tasks = [], trace = []\<rparr>"

definition caption_example :: "string \<Rightarrow> string \<Rightarrow> string \<Rightarrow> Caption" where
  "caption_example ident s e =
     \<lparr>c_id = ident, c_start = s, c_end = e, c_text = ''Hello'', c_style = None\<rparr>"

text \<open>
  A pass of \<open>render\<close> at the live time 4 s: the video is 1280 by 720, the canvas still
  has the default size of a canvas element.
\<close>

definition render_example :: RenderInput where
  "render_example =
     \<lparr>ready = True, videoWidth = Num 1280, videoHeight = Num 720,
      canvasWidth = Num 300, canvasHeight = Num 150, liveTime = Num 4\<rparr>"

definition style_example :: StyleConfig where
  "style_example =
     \<lparr>fontFamily = ''Montserrat'', fontSize = Num 32, textColor = ''#FFFFFF'',
      borderColor = ''#000000'', borderWidth = Num 4, backgroundColor = ''#000000'',
      backgroundOpacity = Num 0, animationType = SCALE_UP, positionY = Num 70,
      positionX = Num 50, fontWeight = ''900''\<rparr>"

section \<open>Digits, and reading back what \<open>formatTime\<close> writes\<close>

lemma digit_char_props:
  assumes "0 \<le> d" "d < 10"
  shows "isDigit (digit_char d)" and "digit_val (digit_char d) = d"
  using assms by (simp_all add: isDigit_def digit_char_def digit_val_def)

lemma isDigit_not_special:
  assumes "isDigit c"
  shows "c \<noteq> CHR '':''" "c \<noteq> CHR '',''" "c \<noteq> CHR ''.''" "c \<noteq> CHR ''-''" "c \<noteq> CHR ''+''"
    "c \<noteq> CHR ''e''" "c \<noteq> CHR ''E''" "c \<noteq> CHR ''I''" "\<not> isWhiteSpace c"
  using assms by (auto simp: isDigit_def isWhiteSpace_def)

lemma digits_all_digit: "0 \<le> n \<Longrightarrow> \<forall>c \<in> set (digits n). isDigit c"
proof (induction n rule: digits.induct)
  case (1 n)
  show ?case
  proof (cases "n < 10")
    case True
    with 1 show ?thesis by (simp add: digits.simps [of n] digit_char_props)
  next
    case False
    with 1 have "\<forall>c \<in> set (digits (n div 10)). isDigit c" by simp
    moreover have "isDigit (digit_char (n mod 10))" by (simp add: digit_char_props)
    ultimately show ?thesis using False by (simp add: digits.simps [of n])
  qed
qed

lemma digits_nonempty: "digits n \<noteq> []"
  by (simp add: digits.simps [of n])

lemma digits_val_snoc: "digits_val (xs @ [c]) = 10 * digits_val xs + digit_val c"
  by (simp add: digits_val_def)

lemma digits_val_digits: "0 \<le> n \<Longrightarrow> digits_val (digits n) = n"
proof (induction n rule: digits.induct)
  case (1 n)
  show ?case
  proof (cases "n < 10")
    case True
    with 1 show ?thesis by (simp add: digits.simps [of n] digits_val_def digit_char_props)
  next
    case False
    with 1 have "digits_val (digits (n div 10)) = n div 10" by simp
    then show ?thesis using False
      by (simp add: digits.simps [of n] digits_val_snoc digit_char_props)
  qed
qed


lemma foldl_digits_acc:
  "foldl (\<lambda>a c. 10 * a + digit_val c) acc ds = acc * 10 ^ length ds + digits_val ds"
proof (induction ds arbitrary: acc)
  case Nil
  show ?case by (simp add: digits_val_def)
next
  case (Cons c cs)
  have "foldl (\<lambda>a c. 10 * a + digit_val c) acc (c # cs)
        = (10 * acc + digit_val c) * 10 ^ length cs + digits_val cs"
    using Cons [of "10 * acc + digit_val c"] by simp
  moreover have "digits_val (c # cs) = digit_val c * 10 ^ length cs + digits_val cs"
    using Cons [of "digit_val c"] by (simp add: digits_val_def)
  ultimately show ?case by (simp add: algebra_simps)
qed

lemma digits_val_append:
  "digits_val (xs @ ys) = digits_val xs * 10 ^ length ys + digits_val ys"
  using foldl_digits_acc [of "digits_val xs" ys] by (simp add: digits_val_def)

lemma digits_val_Nil: "digits_val [] = 0"
  by (simp add: digits_val_def)

lemma digits_val_zeros: "digits_val (replicate k CHR ''0'') = 0"
proof (induction k)
  case 0
  show ?case by (simp add: digits_val_Nil)
next
  case (Suc k)
  have "replicate (Suc k) CHR ''0'' = replicate k CHR ''0'' @ [CHR ''0'']"
    by (simp add: replicate_append_same)
  then have "digits_val (replicate (Suc k) CHR ''0'') = 10 * digits_val (replicate k CHR ''0'') + digit_val CHR ''0''"
    by (simp only: digits_val_snoc)
  then show ?case using Suc by (simp add: digit_val_def)
qed

lemma digits_val_padStart: "digits_val (padStart k CHR ''0'' ds) = digits_val ds"
  by (simp add: padStart_def digits_val_append digits_val_zeros)

lemma isDigit_zero: "isDigit CHR ''0''"
  by (simp add: isDigit_def)

lemma padStart_all_digit:
  "\<forall>c \<in> set ds. isDigit c \<Longrightarrow> \<forall>c \<in> set (padStart k CHR ''0'' ds). isDigit c"
  by (auto simp: padStart_def isDigit_zero)

lemma takeWhile_all: "\<forall>c \<in> set ds. P c \<Longrightarrow> takeWhile P (ds @ rest) = ds @ takeWhile P rest"
  by (induction ds) simp_all

lemma dropWhile_all: "\<forall>c \<in> set ds. P c \<Longrightarrow> dropWhile P (ds @ rest) = dropWhile P rest"
  by (induction ds) simp_all

lemma parseFloat_digits:
  assumes "ds \<noteq> []" and "\<forall>c \<in> set ds. isDigit c"
  shows "parseFloat ds = Num (of_int (digits_val ds))"
proof -
  obtain c cs where ds: "ds = c # cs" using assms(1) by (cases ds) auto
  have c: "isDigit c" using assms(2) ds by simp
  have ws: "dropWhile isWhiteSpace ds = ds"
    using c ds isDigit_not_special(9) by simp
  have sg: "read_sign ds = (False, ds)"
    using c ds isDigit_not_special(4,5) by (simp add: read_sign_def)
  have inf: "take 8 ds \<noteq> ''Infinity''"
    using c ds isDigit_not_special(8) by auto
  have tw: "takeWhile isDigit ds = ds" "dropWhile isDigit ds = []"
    using assms(2) by simp_all
  show ?thesis
    unfolding parseFloat_def ws sg
    using inf assms(1) by (simp add: tw read_exponent_def scale10_def digits_val_Nil)
qed

lemma parseFloat_fixed:
  assumes "ip \<noteq> []" and "\<forall>c \<in> set ip. isDigit c" and "\<forall>c \<in> set fp. isDigit c"
  shows "parseFloat (ip @ CHR ''.'' # fp)
         = Num (of_int (digits_val ip) + of_int (digits_val fp) / 10 ^ length fp)"
proof -
  obtain c cs where ip: "ip = c # cs" using assms(1) by (cases ip) auto
  have c: "isDigit c" using assms(2) ip by simp
  let ?s = "ip @ CHR ''.'' # fp"
  have ws: "dropWhile isWhiteSpace ?s = ?s"
    using c ip isDigit_not_special(9) by simp
  have sg: "read_sign ?s = (False, ?s)"
    using c ip isDigit_not_special(4,5) by (simp add: read_sign_def)
  have inf: "take 8 ?s \<noteq> ''Infinity''"
    using c ip isDigit_not_special(8) by auto
  have nd: "\<not> isDigit CHR ''.''" by (simp add: isDigit_def)
  have tw: "takeWhile isDigit ?s = ip" "dropWhile isDigit ?s = CHR ''.'' # fp"
    using assms(2) nd by (simp_all add: takeWhile_all dropWhile_all)
  have tw2: "takeWhile isDigit fp = fp" "dropWhile isDigit fp = []"
    using assms(3) by simp_all
  show ?thesis
    unfolding parseFloat_def ws sg
    using inf assms(1) by (simp add: tw tw2 read_exponent_def scale10_def)
qed


lemma length_padStart: "length (padStart k c s) = max k (length s)"
  by (simp add: padStart_def)

lemma padStart_long: "k \<le> length s \<Longrightarrow> padStart k c s = s"
  by (simp add: padStart_def)

lemma replace_first_absent: "a \<notin> set s \<Longrightarrow> replace_first a b s = s"
  by (induction s) auto

lemma trim_id:
  assumes "s \<noteq> []" "\<not> isWhiteSpace (hd s)" "\<not> isWhiteSpace (last s)"
  shows "trim s = s"
proof -
  have 1: "dropWhile isWhiteSpace s = s"
    using assms(1,2) by (cases s) simp_all
  have "rev s \<noteq> []" "\<not> isWhiteSpace (hd (rev s))"
    using assms(1,3) by (simp_all add: hd_rev)
  then have 2: "dropWhile isWhiteSpace (rev s) = rev s"
    by (cases "rev s") simp_all
  show ?thesis by (simp add: trim_def 1 2)
qed

lemma split_absent: "d \<notin> set a \<Longrightarrow> split d a = [a]"
  by (induction a) auto

lemma split_at_first: "d \<notin> set a \<Longrightarrow> split d (a @ d # rest) = a # split d rest"
  by (induction a) auto

lemma parseTime_hms:
  assumes a: "a \<noteq> []" "\<not> isWhiteSpace (hd a)"
      "CHR '':'' \<notin> set a" "CHR '','' \<notin> set a" "parseFloat a = Num x"
    and b: "CHR '':'' \<notin> set b" "CHR '','' \<notin> set b" "parseFloat b = Num y"
    and c: "c \<noteq> []" "\<not> isWhiteSpace (last c)"
      "CHR '':'' \<notin> set c" "CHR '','' \<notin> set c" "parseFloat c = Num z"
  shows "parseTime (TString (a @ '':'' @ b @ '':'' @ c)) = Num (x * 3600 + y * 60 + z)"
proof -
  let ?s = "a @ CHR '':'' # b @ CHR '':'' # c"
  have nc: "CHR '','' \<notin> set ?s" using a b c by simp
  have hd: "hd ?s = hd a" using a(1) by simp
  have lst: "last ?s = last c" using c(1) by simp
  have tr: "trim ?s = ?s"
    by (rule trim_id) (use a c hd lst in simp_all)
  have sp: "split CHR '':'' ?s = [a, b, c]"
    using a(3) b(1) c(3) by (simp add: split_at_first split_absent)
  have "parseTime (TString ?s) = Num (x * 3600 + y * 60 + z)"
    by (simp add: replace_first_absent [OF nc] tr sp a(5) b(3) c(5))
  then show ?thesis by simp
qed

lemma toFixed3_parse:
  assumes "0 \<le> s"
  shows "parseFloat (padStart 6 CHR ''0'' (toFixed 3 s)) = Num (of_int \<lfloor>s * 1000 + 1 / 2\<rfloor> / 1000)"
    and "padStart 6 CHR ''0'' (toFixed 3 s) \<noteq> []"
    and "isDigit (last (padStart 6 CHR ''0'' (toFixed 3 s)))"
    and "CHR '':'' \<notin> set (padStart 6 CHR ''0'' (toFixed 3 s))"
    and "CHR '','' \<notin> set (padStart 6 CHR ''0'' (toFixed 3 s))"
proof -
  define n where "n = \<lfloor>s * 1000 + 1 / 2\<rfloor>"
  define m where "m = padStart 4 CHR ''0'' (digits n)"
  define ip where "ip = take (length m - 3) m"
  define fp where "fp = drop (length m - 3) m"
  define j where "j = 6 - length (ip @ CHR ''.'' # fp)"
  have n0: "0 \<le> n" using assms by (simp add: n_def)
  have md: "\<forall>c \<in> set m. isDigit c"
    unfolding m_def by (rule padStart_all_digit) (rule digits_all_digit [OF n0])
  have mlen: "4 \<le> length m" by (simp add: m_def length_padStart)
  have mval: "digits_val m = n"
    by (simp add: m_def digits_val_padStart digits_val_digits [OF n0])
  have m_split: "m = ip @ fp" by (simp add: ip_def fp_def)
  have fplen: "length fp = 3" using mlen by (simp add: fp_def)
  have ipne: "ip \<noteq> []" using mlen by (auto simp: ip_def)
  have ipd: "\<forall>c \<in> set ip. isDigit c" and fpd: "\<forall>c \<in> set fp. isDigit c"
    using md m_split by auto
  have tf: "toFixed 3 s = ip @ CHR ''.'' # fp"
    using assms by (simp add: toFixed_def Let_def n_def [symmetric] m_def [symmetric] ip_def fp_def)
  have ps: "padStart 6 CHR ''0'' (toFixed 3 s) = (replicate j CHR ''0'' @ ip) @ CHR ''.'' # fp"
    by (simp add: tf padStart_def j_def)
  have ip'd: "\<forall>c \<in> set (replicate j CHR ''0'' @ ip). isDigit c"
    using ipd by (auto simp: isDigit_zero)
  have ip'v: "digits_val (replicate j CHR ''0'' @ ip) = digits_val ip"
    by (simp add: digits_val_append digits_val_zeros)
  have val: "digits_val ip * 1000 + digits_val fp = n"
    using mval by (simp add: m_split digits_val_append fplen)
  have "parseFloat (padStart 6 CHR ''0'' (toFixed 3 s))
        = Num (of_int (digits_val ip) + of_int (digits_val fp) / 10 ^ length fp)"
    unfolding ps using parseFloat_fixed [OF _ ip'd fpd] ipne by (simp add: ip'v)
  also have "of_int (digits_val ip) + of_int (digits_val fp) / 10 ^ length fp
             = (of_int (digits_val ip * 1000 + digits_val fp) :: rat) / 1000"
    by (simp add: fplen field_simps)
  finally show "parseFloat (padStart 6 CHR ''0'' (toFixed 3 s)) = Num (of_int \<lfloor>s * 1000 + 1 / 2\<rfloor> / 1000)"
    by (simp add: val n_def)
  show "padStart 6 CHR ''0'' (toFixed 3 s) \<noteq> []" by (simp add: ps)
  have fpne: "fp \<noteq> []" using fplen by auto
  then have "last ((replicate j CHR ''0'' @ ip) @ CHR ''.'' # fp) = last fp" by simp
  moreover have "last fp \<in> set fp" using fpne by simp
  ultimately show "isDigit (last (padStart 6 CHR ''0'' (toFixed 3 s)))"
    using fpd by (simp add: ps)
  show "CHR '':'' \<notin> set (padStart 6 CHR ''0'' (toFixed 3 s))"
    using ipd fpd isDigit_not_special(1) by (auto simp: ps)
  show "CHR '','' \<notin> set (padStart 6 CHR ''0'' (toFixed 3 s))"
    using ipd fpd isDigit_not_special(2) by (auto simp: ps)
qed


lemma read_exponent_plus:
  assumes "0 \<le> k"
  shows "read_exponent (CHR ''e'' # CHR ''+'' # digits k) = k"
proof -
  have tw: "takeWhile isDigit (digits k) = digits k"
    using digits_all_digit [OF assms] by simp
  show ?thesis
    by (simp add: read_exponent_def read_sign_def tw digits_nonempty digits_val_digits [OF assms])
qed

lemma parseFloat_sci_int:
  assumes d: "isDigit d" and k: "0 \<le> k"
  shows "parseFloat (d # CHR ''e'' # CHR ''+'' # digits k)
         = Num (of_int (digit_val d) * 10 ^ nat k)"
proof -
  let ?e = "CHR ''e'' # CHR ''+'' # digits k"
  have ne: "\<not> isDigit CHR ''e''" by (simp add: isDigit_def)
  have ws: "dropWhile isWhiteSpace (d # ?e) = d # ?e"
    using d isDigit_not_special(9) by simp
  have sg: "read_sign (d # ?e) = (False, d # ?e)"
    using d isDigit_not_special(4,5) by (simp add: read_sign_def)
  have inf: "take 8 (d # ?e) \<noteq> ''Infinity''"
    using d isDigit_not_special(8) by auto
  have tw: "takeWhile isDigit (d # ?e) = [d]" "dropWhile isDigit (d # ?e) = ?e"
    using d ne by simp_all
  have one: "digits_val [d] = digit_val d" by (simp add: digits_val_def)
  show ?thesis
    unfolding parseFloat_def ws sg Let_def prod.case tw
    using inf k
    by (simp add: read_exponent_plus [OF k] scale10_def one digits_val_Nil)
qed

lemma parseFloat_sci_frac:
  assumes d: "isDigit d" and rest: "\<forall>c \<in> set rest. isDigit c" and k: "0 \<le> k"
  shows "parseFloat (d # CHR ''.'' # rest @ CHR ''e'' # CHR ''+'' # digits k)
         = Num ((of_int (digit_val d) + of_int (digits_val rest) / 10 ^ length rest) * 10 ^ nat k)"
proof -
  let ?e = "CHR ''e'' # CHR ''+'' # digits k"
  let ?s = "d # CHR ''.'' # rest @ ?e"
  have ne: "\<not> isDigit CHR ''e''" "\<not> isDigit CHR ''.''" by (simp_all add: isDigit_def)
  have ws: "dropWhile isWhiteSpace ?s = ?s"
    using d isDigit_not_special(9) by simp
  have sg: "read_sign ?s = (False, ?s)"
    using d isDigit_not_special(4,5) by (simp add: read_sign_def)
  have inf: "take 8 ?s \<noteq> ''Infinity''"
    using d isDigit_not_special(8) by auto
  have tw: "takeWhile isDigit ?s = [d]" "dropWhile isDigit ?s = CHR ''.'' # rest @ ?e"
    using d ne by simp_all
  have tw2: "takeWhile isDigit (rest @ ?e) = rest" "dropWhile isDigit (rest @ ?e) = ?e"
    using rest ne by (simp_all add: takeWhile_all dropWhile_all)
  have one: "digits_val [d] = digit_val d" by (simp add: digits_val_def)
  show ?thesis
    unfolding parseFloat_def ws sg Let_def prod.case tw list.case
    using inf k
    by (simp add: tw2 read_exponent_plus [OF k] scale10_def one)
qed

lemma parseFloat_sci:
  assumes d: "isDigit d" and rest: "\<forall>c \<in> set rest. isDigit c" and k: "0 \<le> k"
  shows "parseFloat (d # (if rest = [] then [] else CHR ''.'' # rest) @ ''e+'' @ digits k)
         = Num ((of_int (digit_val d) + of_int (digits_val rest) / 10 ^ length rest) * 10 ^ nat k)"
proof (cases "rest = []")
  case True
  then show ?thesis using parseFloat_sci_int [OF d k] by (simp add: digits_val_Nil)
next
  case False
  then show ?thesis using parseFloat_sci_frac [OF d rest k] by simp
qed

lemma toString_int_small:
  assumes "0 \<le> h" "h < 10 ^ 21"
  shows "toString_int h = digits h"
  using assms by (simp add: toString_int_def Let_def)

lemma toString_int_big:
  assumes big: "10 ^ 21 \<le> h"
  shows "\<exists>d rest k. toString_int h = d # (if rest = [] then [] else CHR ''.'' # rest) @ ''e+'' @ digits k
           \<and> isDigit d \<and> (\<forall>c \<in> set rest. isDigit c) \<and> 0 \<le> k
           \<and> (of_int (digit_val d) + of_int (digits_val rest) / 10 ^ length rest) * 10 ^ nat k
               = (of_int h :: rat)"
proof -
  have h0: "0 \<le> h" and hpos: "0 < h" using big by simp_all
  define ds where "ds = digits h"
  define zs where "zs = takeWhile (\<lambda>c. c = CHR ''0'') (rev ds)"
  define sg where "sg = rev (dropWhile (\<lambda>c. c = CHR ''0'') (rev ds))"
  have "rev ds = zs @ rev sg" by (simp add: zs_def sg_def)
  then have "rev (rev ds) = rev (zs @ rev sg)" by simp
  then have ds_split: "ds = sg @ rev zs" by simp
  have "\<forall>c \<in> set (rev zs). c = CHR ''0''"
    by (auto simp: zs_def dest: set_takeWhileD)
  then have zeros: "rev zs = replicate (length zs) CHR ''0''"
    using replicate_length_same [of "rev zs" "CHR ''0''"] by simp
  have dsd: "\<forall>c \<in> set ds. isDigit c"
    unfolding ds_def by (rule digits_all_digit [OF h0])
  have dsv: "digits_val ds = h"
    unfolding ds_def by (rule digits_val_digits [OF h0])
  have dsv': "digits_val ds = digits_val sg * 10 ^ length zs"
    by (subst ds_split, subst zeros) (simp add: digits_val_append digits_val_zeros)
  have "sg \<noteq> []"
  proof
    assume "sg = []"
    then have "digits_val ds = 0" using dsv' by (simp add: digits_val_Nil)
    then show False using dsv hpos by simp
  qed
  then obtain d rest where sg: "sg = d # rest" by (cases sg) auto
  have d: "isDigit d" and rest: "\<forall>c \<in> set rest. isDigit c"
    using dsd ds_split sg by auto
  define k where "k = int (length ds) - 1"
  have len: "length ds = Suc (length rest + length zs)"
    by (subst ds_split) (simp add: sg)
  have k0: "0 \<le> k" and natk: "nat k = length rest + length zs"
    using len by (simp_all add: k_def)
  have sgv: "digits_val sg = digit_val d * 10 ^ length rest + digits_val rest"
    using digits_val_append [of "[d]" rest] by (simp add: sg digits_val_def)
  have str: "toString_int h = d # (if rest = [] then [] else CHR ''.'' # rest) @ ''e+'' @ digits k"
    using big h0
    by (simp add: toString_int_def Let_def ds_def [symmetric] sg_def [symmetric] sg k_def)
  have hv: "(of_int h :: rat) = of_int (digits_val sg) * 10 ^ length zs"
    using dsv dsv' by (metis of_int_mult of_int_numeral of_int_power)
  have "(of_int (digit_val d) + of_int (digits_val rest) / 10 ^ length rest) * 10 ^ nat k
        = (of_int h :: rat)"
    unfolding hv natk sgv by (simp add: power_add field_simps)
  with str d rest k0 show ?thesis by blast
qed

lemma toString_int_parse:
  assumes "0 \<le> h"
  shows "parseFloat (padStart 2 CHR ''0'' (toString_int h)) = Num (of_int h)"
    and "padStart 2 CHR ''0'' (toString_int h) \<noteq> []"
    and "\<not> isWhiteSpace (hd (padStart 2 CHR ''0'' (toString_int h)))"
    and "CHR '':'' \<notin> set (padStart 2 CHR ''0'' (toString_int h))"
    and "CHR '','' \<notin> set (padStart 2 CHR ''0'' (toString_int h))"
proof -
  let ?p = "padStart 2 CHR ''0'' (toString_int h)"
  have "parseFloat ?p = Num (of_int h) \<and> ?p \<noteq> [] \<and> \<not> isWhiteSpace (hd ?p)
        \<and> CHR '':'' \<notin> set ?p \<and> CHR '','' \<notin> set ?p"
  proof (cases "h < 10 ^ 21")
    case True
    have p: "?p = padStart 2 CHR ''0'' (digits h)"
      by (simp add: toString_int_small [OF assms True])
    have pd: "\<forall>c \<in> set (padStart 2 CHR ''0'' (digits h)). isDigit c"
      by (rule padStart_all_digit) (rule digits_all_digit [OF assms])
    have pne: "padStart 2 CHR ''0'' (digits h) \<noteq> []"
      by (simp add: padStart_def digits_nonempty)
    then have "hd (padStart 2 CHR ''0'' (digits h)) \<in> set (padStart 2 CHR ''0'' (digits h))"
      by simp
    then have hdd: "isDigit (hd (padStart 2 CHR ''0'' (digits h)))" using pd by blast
    have pf: "parseFloat (padStart 2 CHR ''0'' (digits h)) = Num (of_int h)"
      using parseFloat_digits [OF pne pd]
      by (simp add: digits_val_padStart digits_val_digits [OF assms])
    have nws: "\<not> isWhiteSpace (hd (padStart 2 CHR ''0'' (digits h)))"
      using hdd by (rule isDigit_not_special(9))
    have ncol: "CHR '':'' \<notin> set (padStart 2 CHR ''0'' (digits h))"
      using pd isDigit_not_special(1) by blast
    have ncom: "CHR '','' \<notin> set (padStart 2 CHR ''0'' (digits h))"
      using pd isDigit_not_special(2) by blast
    show ?thesis
      unfolding p using pf pne nws ncol ncom by simp
  next
    case False
    then have big: "10 ^ 21 \<le> h" by simp
    from toString_int_big [OF big] obtain d rest k where
      str: "toString_int h = d # (if rest = [] then [] else CHR ''.'' # rest) @ ''e+'' @ digits k"
      and d: "isDigit d" and rest: "\<forall>c \<in> set rest. isDigit c" and k: "0 \<le> k"
      and v: "(of_int (digit_val d) + of_int (digits_val rest) / 10 ^ length rest) * 10 ^ nat k
               = (of_int h :: rat)"
      by blast
    have "2 \<le> length (toString_int h)" by (simp add: str)
    then have p: "?p = toString_int h" by (rule padStart_long)
    have kd: "\<forall>c \<in> set (digits k). isDigit c" by (rule digits_all_digit [OF k])
    have pf: "parseFloat (toString_int h) = Num (of_int h)"
      unfolding str using parseFloat_sci [OF d rest k] v by simp
    have hdeq: "hd (toString_int h) = d" by (simp add: str)
    have nws: "\<not> isWhiteSpace (hd (toString_int h))"
      unfolding hdeq using d by (rule isDigit_not_special(9))
    have sub: "set (toString_int h) \<subseteq> insert CHR ''.'' (insert CHR ''e'' (insert CHR ''+''
                 (insert d (set rest \<union> set (digits k)))))"
      by (auto simp: str)
    have ok: "\<And>c. c \<in> insert CHR ''.'' (insert CHR ''e'' (insert CHR ''+''
                 (insert d (set rest \<union> set (digits k))))) \<Longrightarrow> c \<noteq> CHR '':'' \<and> c \<noteq> CHR '',''"
      using d rest kd isDigit_not_special(1,2) by auto
    have ncol: "CHR '':'' \<notin> set (toString_int h)" and ncom: "CHR '','' \<notin> set (toString_int h)"
      using sub ok by blast+
    have ne: "toString_int h \<noteq> []" by (simp add: str)
    show ?thesis
      unfolding p using pf ne nws ncol ncom by simp
  qed
  then show "parseFloat ?p = Num (of_int h)" "?p \<noteq> []" "\<not> isWhiteSpace (hd ?p)"
    "CHR '':'' \<notin> set ?p" "CHR '','' \<notin> set ?p"
    by blast+
qed


lemma rat_rem_floor:
  assumes "0 \<le> a" "0 < b"
  shows "rat_rem a b = a - b * of_int \<lfloor>a / b\<rfloor>"
  using assms by (simp add: rat_rem_def trunc_def)

lemma rat_rem_nonneg:
  assumes "0 \<le> a" "0 < b"
  shows "0 \<le> rat_rem a b"
proof -
  have "of_int \<lfloor>a / b\<rfloor> \<le> a / b" by (rule of_int_floor_le)
  then have "b * of_int \<lfloor>a / b\<rfloor> \<le> b * (a / b)"
    using assms(2) by (intro mult_left_mono) simp_all
  then have "b * of_int \<lfloor>a / b\<rfloor> \<le> a"
    using assms(2) by simp
  then show ?thesis by (simp add: rat_rem_floor [OF assms])
qed

lemma hms_recompose:
  assumes x: "0 \<le> x"
  shows "of_int \<lfloor>x / 3600\<rfloor> * 3600 + of_int \<lfloor>rat_rem x 3600 / 60\<rfloor> * 60
           + of_int \<lfloor>rat_rem x 60 * 1000 + 1 / 2\<rfloor> / 1000 = round_ms x"
proof -
  define h where "h = \<lfloor>x / 3600\<rfloor>"
  define r where "r = rat_rem x 3600"
  define m where "m = \<lfloor>r / 60\<rfloor>"
  have r: "r = x - 3600 * of_int h"
    by (simp add: r_def h_def rat_rem_floor [OF x])
  have "x / 60 = r / 60 + of_int (60 * h)" unfolding r by (simp add: field_simps)
  then have "\<lfloor>x / 60\<rfloor> = \<lfloor>r / 60 + of_int (60 * h)\<rfloor>" by (rule arg_cong)
  also have "\<dots> = m + 60 * h" unfolding m_def by (rule floor_add_int [symmetric])
  finally have q: "\<lfloor>x / 60\<rfloor> = m + 60 * h" .
  have s: "rat_rem x 60 = x - 60 * of_int (m + 60 * h)"
    by (simp add: rat_rem_floor [OF x] q)
  have "rat_rem x 60 * 1000 + 1 / 2 = (x * 1000 + 1 / 2) - of_int (60000 * (m + 60 * h))"
    by (simp add: s algebra_simps)
  then have "\<lfloor>rat_rem x 60 * 1000 + 1 / 2\<rfloor> = \<lfloor>(x * 1000 + 1 / 2) - of_int (60000 * (m + 60 * h))\<rfloor>"
    by (rule arg_cong)
  also have "\<dots> = \<lfloor>x * 1000 + 1 / 2\<rfloor> - 60000 * (m + 60 * h)"
    by (rule floor_diff_of_int)
  finally have f: "\<lfloor>rat_rem x 60 * 1000 + 1 / 2\<rfloor> = \<lfloor>x * 1000 + 1 / 2\<rfloor> - 60000 * (m + 60 * h)" .
  show ?thesis
    unfolding f round_ms_def h_def [symmetric] r_def [symmetric] m_def [symmetric]
    by (simp add: field_simps)
qed

lemma parseTime_zero_text: "parseTime (TString ''00:00:00.000'') = Num 0"
  by code_simp

lemma parseTime_formatTime_nonneg:
  assumes x: "0 \<le> x"
  shows "parseTime (TString (formatTime (Num x))) = Num (round_ms x)"
proof -
  define hs where "hs = padStart 2 CHR ''0'' (toString_int \<lfloor>x / 3600\<rfloor>)"
  define ms where "ms = padStart 2 CHR ''0'' (toString_int \<lfloor>rat_rem x 3600 / 60\<rfloor>)"
  define ss where "ss = padStart 6 CHR ''0'' (toFixed 3 (rat_rem x 60))"
  have h0: "0 \<le> \<lfloor>x / 3600\<rfloor>" using x by simp
  have m0: "0 \<le> \<lfloor>rat_rem x 3600 / 60\<rfloor>" using rat_rem_nonneg [OF x, of 3600] by simp
  have s0: "0 \<le> rat_rem x 60" using rat_rem_nonneg [OF x, of 60] by simp
  have fmt: "formatTime (Num x) = hs @ '':'' @ ms @ '':'' @ ss"
    using x by (simp add: Let_def hs_def ms_def ss_def)
  have last_ss: "\<not> isWhiteSpace (last ss)"
    unfolding ss_def using toFixed3_parse(3) [OF s0] by (rule isDigit_not_special(9))
  have "parseTime (TString (hs @ '':'' @ ms @ '':'' @ ss))
        = Num (of_int \<lfloor>x / 3600\<rfloor> * 3600 + of_int \<lfloor>rat_rem x 3600 / 60\<rfloor> * 60
               + of_int \<lfloor>rat_rem x 60 * 1000 + 1 / 2\<rfloor> / 1000)"
  proof (rule parseTime_hms)
    show "hs \<noteq> []" unfolding hs_def by (rule toString_int_parse(2) [OF h0])
    show "\<not> isWhiteSpace (hd hs)" unfolding hs_def by (rule toString_int_parse(3) [OF h0])
    show "CHR '':'' \<notin> set hs" unfolding hs_def by (rule toString_int_parse(4) [OF h0])
    show "CHR '','' \<notin> set hs" unfolding hs_def by (rule toString_int_parse(5) [OF h0])
    show "parseFloat hs = Num (of_int \<lfloor>x / 3600\<rfloor>)"
      unfolding hs_def by (rule toString_int_parse(1) [OF h0])
    show "CHR '':'' \<notin> set ms" unfolding ms_def by (rule toString_int_parse(4) [OF m0])
    show "CHR '','' \<notin> set ms" unfolding ms_def by (rule toString_int_parse(5) [OF m0])
    show "parseFloat ms = Num (of_int \<lfloor>rat_rem x 3600 / 60\<rfloor>)"
      unfolding ms_def by (rule toString_int_parse(1) [OF m0])
    show "ss \<noteq> []" unfolding ss_def by (rule toFixed3_parse(2) [OF s0])
    show "\<not> isWhiteSpace (last ss)" by (rule last_ss)
    show "CHR '':'' \<notin> set ss" unfolding ss_def by (rule toFixed3_parse(4) [OF s0])
    show "CHR '','' \<notin> set ss" unfolding ss_def by (rule toFixed3_parse(5) [OF s0])
    show "parseFloat ss = Num (of_int \<lfloor>rat_rem x 60 * 1000 + 1 / 2\<rfloor> / 1000)"
      unfolding ss_def by (rule toFixed3_parse(1) [OF s0])
  qed
  then show ?thesis unfolding fmt hms_recompose [OF x] .
qed

lemma formatTime_negative: "x < 0 \<Longrightarrow> formatTime (Num x) = ''00:00:00.000''"
  by simp

lemma parseTime_formatTime:
  "parseTime (TString (formatTime (Num x))) = Num (if x < 0 then 0 else round_ms x)"
proof (cases "x < 0")
  case True
  then show ?thesis by (simp only: formatTime_negative parseTime_zero_text if_True)
next
  case False
  then have "0 \<le> x" by simp
  from parseTime_formatTime_nonneg [OF this] False show ?thesis by simp
qed

lemma round_ms_mono: "x \<le> y \<Longrightarrow> round_ms x \<le> round_ms y"
  unfolding round_ms_def by (intro divide_right_mono) (simp_all add: floor_mono)

lemma round_ms_shift: "round_ms (x + of_int k / 1000) = round_ms x + of_int k / 1000"
proof -
  have "(x + of_int k / 1000) * 1000 + 1 / 2 = (x * 1000 + 1 / 2) + of_int k"
    by (simp add: algebra_simps)
  then have "\<lfloor>(x + of_int k / 1000) * 1000 + 1 / 2\<rfloor> = \<lfloor>x * 1000 + 1 / 2\<rfloor> + k"
    by (simp only: floor_add_int)
  then show ?thesis by (simp add: round_ms_def add_divide_distrib)
qed

lemma round_ms_grid: "round_ms (of_int k / 1000) = of_int k / 1000"
proof -
  have "\<lfloor>(of_int k :: rat) + 1 / 2\<rfloor> = k" by (simp add: floor_unique)
  then show ?thesis by (simp add: round_ms_def)
qed

lemma round_ms_nonneg: "0 \<le> x \<Longrightarrow> 0 \<le> round_ms x"
  using round_ms_mono [of 0 x] round_ms_grid [of 0] by simp


declare formatTime.simps [simp del] parseTime.simps [simp del]

section \<open>Arithmetic of finite numbers\<close>

lemma Math_max_Num: "Math_max (Num a) (Num b) = Num (max a b)"
  by (simp add: Math_max_def max_def)

lemma Math_min_Num: "Math_min (Num a) (Num b) = Num (min a b)"
  by (simp add: Math_min_def min_def)

lemma js_sub_Num: "js_sub (Num a) (Num b) = Num (a - b)"
  by (simp add: js_sub_def)

lemma committed_span:
  assumes "0 \<le> s" and "s + of_int k / 1000 \<le> e" and "0 \<le> k"
  shows "(if s < 0 then 0 else round_ms s) + of_int k / 1000 \<le> (if e < 0 then 0 else round_ms e)"
proof -
  have "0 \<le> (of_int k :: rat) / 1000" using assms(3) by simp
  then have e0: "0 \<le> e" using assms(1,2) by linarith
  have "round_ms s + of_int k / 1000 = round_ms (s + of_int k / 1000)"
    by (rule round_ms_shift [symmetric])
  also have "\<dots> \<le> round_ms e" by (rule round_ms_mono [OF assms(2)])
  finally show ?thesis using assms(1) e0 by simp
qed

lemma committed_span_10:
  assumes "0 \<le> s" and "s + 1 / 10 \<le> e"
  shows "(if s < 0 then 0 else round_ms s) + 1 / 10 \<le> (if e < 0 then 0 else round_ms e)"
  using committed_span [of s 100 e] assms by simp

lemma committed_span_20:
  assumes "0 \<le> s" and "s + 2 / 10 \<le> e"
  shows "(if s < 0 then 0 else round_ms s) + 2 / 10 \<le> (if e < 0 then 0 else round_ms e)"
  using committed_span [of s 200 e] assms by simp

lemma span_to_ms:
  assumes "ps + of_int k / 1000 \<le> pe"
  shows "of_int k / 1000 \<le> round_ms (pe - ps)"
proof -
  have "of_int k / 1000 \<le> pe - ps" using assms by simp
  then have "round_ms (of_int k / 1000) \<le> round_ms (pe - ps)" by (rule round_ms_mono)
  then show ?thesis by (simp only: round_ms_grid)
qed

lemma span_to_ms_99: "ps + 1 / 10 \<le> pe \<Longrightarrow> 99 / 1000 \<le> round_ms (pe - ps)"
  using span_to_ms [of ps 100 pe] by simp

lemma span_to_ms_199: "ps + 2 / 10 \<le> pe \<Longrightarrow> 199 / 1000 \<le> round_ms (pe - ps)"
  using span_to_ms [of ps 200 pe] by simp

section \<open>The sort keeps the elements\<close>

lemma set_insert_sorted: "set (insert_sorted cmp x ys) = insert x (set ys)"
  by (induction ys) auto






section \<open>The steps of the export, without local bindings\<close>

lemma World_explicit:
  obtains t0 m0 pr0 oe0 du0 rc cp ch pc ip sct dl ts tr pl where
    "w = \<lparr>player = pl,
          video = \<lparr>currentTime = t0, muted = m0, playbackRate = pr0, onended = oe0, duration = du0\<rparr>,
          recorder = rc, captured = cp, chunks = ch, processing = pc, isPlaying = ip,
          state_currentTime = sct, downloads = dl, tasks = ts, trace = tr\<rparr>"
proof (cases w)
  case (fields pl v rc cp ch pc ip sct dl ts tr)
  then show ?thesis using that by (cases v) auto
qed

lemma onstop_unfold:
  "onstop ct w =
     w\<lparr>downloads := downloads w @ [(''captioned_video.webm'', chunks w)],
       processing := \<lparr>status = Success, message = Some ''Video exported successfully!''\<rparr>,
       video := (video w)\<lparr>currentTime := ct, muted := False, playbackRate := Num 1\<rparr>,
       trace := trace w @ [SetCurrentTime ct, SetMuted False]\<rparr>"
  by (simp add: onstop_def Let_def setProcessing_def set_currentTime_def set_muted_def)

lemma await_ended_unfold:
  "tasks w = [] \<Longrightarrow>
   await_ended sc ct w =
     (if sc = RecorderStopsEarly
      then (let w2 = onstop ct (ondataavailable (captured w)
                       (w\<lparr>video := (video w)\<lparr>onended := True\<rparr>, recorder := Inactive\<rparr>))
            in w2\<lparr>video := (video w2)\<lparr>currentTime := duration (video w2)\<rparr>,
                  trace := trace w2 @ [Ended]\<rparr>)
      else w\<lparr>video := (video w)\<lparr>onended := True, currentTime := duration (video w)\<rparr>,
             trace := trace w @ [Ended]\<rparr>)"
  by (simp add: await_ended_def Let_def run_tasks_def ondataavailable_def onstop_unfold)

text \<open>The calls and events of one export, for each thing the video element and the recorder may do.\<close>

lemma export_trace:
  assumes "player w" and "trace w = []" and "tasks w = []"
  shows "trace (handleExport sc w) =
     [RecorderStart, SetCurrentTime (Num 0), SetMuted True, Seeked, Play] @
     (case sc of
        PlaysToEnd \<Rightarrow> [Ended, RecorderStop, SetMuted (muted (video w)),
                       SetCurrentTime (currentTime (video w)),
                       SetCurrentTime (state_currentTime w), SetMuted False]
      | PlayRejected \<Rightarrow> [RecorderStop, SetMuted (muted (video w)),
                       SetCurrentTime (currentTime (video w)),
                       SetCurrentTime (state_currentTime w), SetMuted False]
      | RecorderStopsEarly \<Rightarrow> [SetCurrentTime (state_currentTime w), SetMuted False, Ended,
                       SetMuted (muted (video w)), SetCurrentTime (currentTime (video w))])"
proof -
  obtain t0 m0 pr0 oe0 du0 rc cp ch pc ip sct dl ts tr pl where
    w: "w = \<lparr>player = pl,
          video = \<lparr>currentTime = t0, muted = m0, playbackRate = pr0, onended = oe0, duration = du0\<rparr>,
          recorder = rc, captured = cp, chunks = ch, processing = pc, isPlaying = ip,
          state_currentTime = sct, downloads = dl, tasks = ts, trace = tr\<rparr>"
    by (rule World_explicit)
  have a: "pl" "tr = []" "ts = []" using assms by (simp_all add: w)
  show ?thesis
    unfolding w using a
    by (cases sc)
       (simp_all add: handleExport_def handleExport_body_def run_tasks_def
        setProcessing_def new_MediaRecorder_def mediaRecorder_start_def set_currentTime_def
        set_muted_def await_seeked_def video_play_def await_ended_unfold mediaRecorder_stop_def
        ondataavailable_def onstop_unfold)
qed

text \<open>
  At the end of the body of \<open>handleExport\<close> the \<open>finally\<close> block has put the mute flag
  and the time of the video element back, whatever happened before.
\<close>

lemma export_body_restores:
  assumes "player w" and "tasks w = []"
  shows "currentTime (video (snd (handleExport_body sc w))) = currentTime (video w)
       \<and> muted (video (snd (handleExport_body sc w))) = muted (video w)
       \<and> \<not> onended (video (snd (handleExport_body sc w)))"
proof -
  obtain t0 m0 pr0 oe0 du0 rc cp ch pc ip sct dl ts tr pl where
    w: "w = \<lparr>player = pl,
          video = \<lparr>currentTime = t0, muted = m0, playbackRate = pr0, onended = oe0, duration = du0\<rparr>,
          recorder = rc, captured = cp, chunks = ch, processing = pc, isPlaying = ip,
          state_currentTime = sct, downloads = dl, tasks = ts, trace = tr\<rparr>"
    by (rule World_explicit)
  have a: "pl" "ts = []" using assms by (simp_all add: w)
  show ?thesis
    unfolding w using a
    by (cases sc)
       (simp_all add: handleExport_body_def
        setProcessing_def new_MediaRecorder_def mediaRecorder_start_def set_currentTime_def
        set_muted_def await_seeked_def video_play_def await_ended_unfold mediaRecorder_stop_def
        ondataavailable_def onstop_unfold)
qed

text \<open>
  When \<open>stop()\<close> was called on the running recorder (the video played to its end, or
  \<open>play()\<close> was rejected), the \<open>stop\<close> event comes after the body: \<open>onstop\<close> hands the
  chunks to the browser, reports success, and sets the video element's time and mute flag.
\<close>

lemma export_after_stop_event:
  assumes "player w" and "tasks w = []" and "sc \<noteq> RecorderStopsEarly"
  shows "currentTime (video (handleExport sc w)) = state_currentTime w
       \<and> \<not> muted (video (handleExport sc w))
       \<and> status (processing (handleExport sc w)) = Success
       \<and> downloads (handleExport sc w)
           = downloads w @ [(''captioned_video.webm'', if captured w = [] then [] else [captured w])]"
proof -
  obtain t0 m0 pr0 oe0 du0 rc cp ch pc ip sct dl ts tr pl where
    w: "w = \<lparr>player = pl,
          video = \<lparr>currentTime = t0, muted = m0, playbackRate = pr0, onended = oe0, duration = du0\<rparr>,
          recorder = rc, captured = cp, chunks = ch, processing = pc, isPlaying = ip,
          state_currentTime = sct, downloads = dl, tasks = ts, trace = tr\<rparr>"
    by (rule World_explicit)
  have a: "pl" "ts = []" using assms by (simp_all add: w)
  show ?thesis
    unfolding w using a assms(3)
    by (cases sc)
       (simp_all add: handleExport_def handleExport_body_def run_tasks_def
        setProcessing_def new_MediaRecorder_def mediaRecorder_start_def set_currentTime_def
        set_muted_def await_seeked_def video_play_def await_ended_unfold mediaRecorder_stop_def
        ondataavailable_def onstop_unfold)
qed

section \<open>The export: restoring the video element\<close>

text \<open>
  C1. After an export the mute flag and the current time of the video element should be
  what they were before it. The \<open>finally\<close> block does restore them, on success and on
  failure, but the \<open>stop\<close> event of the recorder is handled after it, and \<open>onstop\<close> sets the
  time to the \<open>currentTime\<close> of the React state and the mute flag to \<open>false\<close>. For an export
  requested at 5.3 s while the state holds 5.1 s, the video element ends at 5.1 s; an
  element that was muted ends unmuted.
\<close>

theorem export_restore_overwritten:
  "currentTime (video export_example) = Num (53 / 10)
   \<and> currentTime (video (snd (handleExport_body PlaysToEnd export_example))) = Num (53 / 10)
   \<and> currentTime (video (handleExport PlaysToEnd export_example)) = Num (51 / 10)
   \<and> currentTime (video (handleExport PlayRejected export_example)) = Num (51 / 10)
   \<and> muted (video (export_example\<lparr>video := (video export_example)\<lparr>muted := True\<rparr>\<rparr>))
   \<and> muted (video (snd (handleExport_body PlaysToEnd
         (export_example\<lparr>video := (video export_example)\<lparr>muted := True\<rparr>\<rparr>))))
   \<and> \<not> muted (video (handleExport PlaysToEnd
         (export_example\<lparr>video := (video export_example)\<lparr>muted := True\<rparr>\<rparr>)))"
  by code_simp

section \<open>The export: the failure path\<close>

text \<open>
  C2. When \<open>play()\<close> is rejected, the \<open>catch\<close> block reports the status \<open>error\<close> and stops
  the recorder, and the function ends without an exception. Stopping the recorder makes
  it deliver its data and fire \<open>stop\<close>: \<open>onstop\<close> then hands the partial recording to the
  browser as \<open>captioned_video.webm\<close> and replaces the status by \<open>success\<close>.
\<close>

theorem export_failure_delivers_artifact:
  "fst (handleExport_body PlayRejected export_example) = None
   \<and> recorder (snd (handleExport_body PlayRejected export_example)) = Inactive
   \<and> status (processing (snd (handleExport_body PlayRejected export_example))) = Error
   \<and> status (processing (handleExport PlayRejected export_example)) = Success
   \<and> downloads (handleExport PlayRejected export_example)
        = [(''captioned_video.webm'', [[1, 2, 3]])]"
  by code_simp

section \<open>The export: the order of its steps\<close>

text \<open>
  C3, as the code has it. An export first starts the recorder, then sets the time of the
  video element to 0 and mutes it, then waits for \<open>seeked\<close>, and only then calls \<open>play()\<close>:
  capture is started before the seek is issued and acknowledged, and playback is
  started after both.
\<close>

theorem export_order:
  assumes "player w" and "trace w = []" and "tasks w = []"
  shows "take 5 (trace (handleExport sc w))
           = [RecorderStart, SetCurrentTime (Num 0), SetMuted True, Seeked, Play]
       \<and> precedes RecorderStart (SetCurrentTime (Num 0)) (trace (handleExport sc w))
       \<and> precedes RecorderStart Seeked (trace (handleExport sc w))
       \<and> precedes Seeked Play (trace (handleExport sc w))
       \<and> precedes RecorderStart Play (trace (handleExport sc w))
       \<and> \<not> precedes Seeked RecorderStart (trace (handleExport sc w))"
  unfolding export_trace [OF assms]
  by (cases sc) (simp_all add: precedes_def)

theorem export_order_witness:
  "player export_example \<and> trace export_example = [] \<and> tasks export_example = []
   \<and> take 5 (trace (handleExport PlayRejected export_example))
        = [RecorderStart, SetCurrentTime (Num 0), SetMuted True, Seeked, Play]
   \<and> precedes RecorderStart Seeked (trace (handleExport PlayRejected export_example))"
proof -
  have a: "player export_example" "trace export_example = []" "tasks export_example = []"
    by (simp_all add: export_example_def)
  show ?thesis
    using export_order [OF a, of PlayRejected] a by simp
qed

text \<open>
  C3 as stated fails: in the export of the example the recorder is started first, and
  neither the seek nor its acknowledgement comes before that.
\<close>

theorem export_order_counterexample:
  "trace (handleExport PlaysToEnd export_example)
     = [RecorderStart, SetCurrentTime (Num 0), SetMuted True, Seeked, Play, Ended, RecorderStop,
        SetMuted False, SetCurrentTime (Num (53 / 10)), SetCurrentTime (Num (51 / 10)),
        SetMuted False]
   \<and> \<not> precedes Seeked RecorderStart (trace (handleExport PlaysToEnd export_example))
   \<and> \<not> precedes (SetCurrentTime (Num 0)) RecorderStart (trace (handleExport PlaysToEnd export_example))
   \<and> precedes RecorderStart (SetCurrentTime (Num 0)) (trace (handleExport PlaysToEnd export_example))"
  by code_simp

section \<open>Timeline drags and the minimum span\<close>

text \<open>
  C4, as the code has it. A drag of a caption with the finite initial span \<open>[a, b]\<close>, at a
  positive zoom, commits the texts of a start and an end. The move branch takes the end
  as the larger of start + 0.1 and end + delta, the resize branches use 0.2, and both
  times are then rounded to milliseconds by \<open>formatTime\<close>. In the double arithmetic of the
  program the sum start + 0.1 (or start + 0.2) can fall just below a rounding boundary
  that the exact sum reaches, which costs one millisecond; the arithmetic here is exact
  and does not show that, so the bounds are stated with that millisecond taken off, for
  times and pointer movements below \<open>2^32\<close> seconds, where the rounding of doubles stays
  far below a millisecond. Read back as times, the committed span is, to the millisecond,
  at least 0.099 s for a move, at least 0.199 s for a right resize when \<open>a\<close> is not
  negative, and at least 0.199 s for a left resize when \<open>b\<close> is at least 0.2 s.
\<close>

theorem drag_commit_min_span:
  assumes z: "0 < z"
    and bounds: "\<bar>a\<bar> \<le> 2 ^ 32" "\<bar>b\<bar> \<le> 2 ^ 32" "\<bar>x - x0\<bar> \<le> 2 ^ 32 * z"
    and mv: "handleMouseMove (Num z) container eff
               (Some \<lparr>d_id = Some ident, d_type = ty, startX = Num x0,
                      initialStart = Some (Num a), initialEnd = Some (Num b)\<rparr>) (Num x)
             = Some (OnCaptionChange i u)"
  shows "\<exists>s e ps pe. u_start u = Some s \<and> u_end u = Some e
           \<and> parseTime (TString s) = Num ps \<and> parseTime (TString e) = Num pe
           \<and> (ty = Move \<longrightarrow> 99 / 1000 \<le> round_ms (pe - ps))
           \<and> (ty = ResizeRight \<and> 0 \<le> a \<longrightarrow> 199 / 1000 \<le> round_ms (pe - ps))
           \<and> (ty = ResizeLeft \<and> 2 / 10 \<le> b \<longrightarrow> 199 / 1000 \<le> round_ms (pe - ps))"
proof -
  define dt where "dt = (x - x0) / z"
  have zn: "z \<noteq> 0" using z by simp
  show ?thesis
  proof (cases ty)
    case Move
    have ne: "ident \<noteq> []"
      using mv Move by (auto simp: handleMouseMove_def split: if_splits)
    define ns where "ns = max 0 (a + dt)"
    define en where "en = max (ns + 1 / 10) (b + dt)"
    have u: "u = no_update\<lparr>u_start := Some (formatTime (Num ns)), u_end := Some (formatTime (Num en))\<rparr>"
      using mv Move ne zn
      by (simp add: handleMouseMove_def pixelsToTime_def js_sub_Num Math_max_Num Math_min_Num
            Let_def ns_def en_def dt_def)
    have "0 \<le> ns" "ns + 1 / 10 \<le> en" by (simp_all add: ns_def en_def)
    then have "(if ns < 0 then 0 else round_ms ns) + 1 / 10 \<le> (if en < 0 then 0 else round_ms en)"
      by (rule committed_span_10)
    then have "99 / 1000 \<le> round_ms ((if en < 0 then 0 else round_ms en) - (if ns < 0 then 0 else round_ms ns))"
      by (rule span_to_ms_99)
    then show ?thesis
      using Move by (simp add: u no_update_def parseTime_formatTime)
  next
    case ResizeLeft
    have ne: "ident \<noteq> []"
      using mv ResizeLeft by (auto simp: handleMouseMove_def split: if_splits)
    define ns where "ns = max 0 (min (b - 2 / 10) (a + dt))"
    have u: "u = no_update\<lparr>u_start := Some (formatTime (Num ns)), u_end := Some (formatTime (Num b))\<rparr>"
      using mv ResizeLeft ne zn
      by (simp add: handleMouseMove_def pixelsToTime_def js_sub_Num Math_max_Num Math_min_Num
            Let_def ns_def dt_def)
    have "2 / 10 \<le> b \<Longrightarrow>
      199 / 1000 \<le> round_ms ((if b < 0 then 0 else round_ms b) - (if ns < 0 then 0 else round_ms ns))"
    proof -
      assume "2 / 10 \<le> b"
      then have "0 \<le> ns" "ns + 2 / 10 \<le> b" by (simp_all add: ns_def)
      then have "(if ns < 0 then 0 else round_ms ns) + 2 / 10 \<le> (if b < 0 then 0 else round_ms b)"
        by (rule committed_span_20)
      then show ?thesis by (rule span_to_ms_199)
    qed
    then show ?thesis
      using ResizeLeft by (simp add: u no_update_def parseTime_formatTime)
  next
    case ResizeRight
    have ne: "ident \<noteq> []"
      using mv ResizeRight by (auto simp: handleMouseMove_def split: if_splits)
    define en where "en = max (a + 2 / 10) (b + dt)"
    have u: "u = no_update\<lparr>u_start := Some (formatTime (Num a)), u_end := Some (formatTime (Num en))\<rparr>"
      using mv ResizeRight ne zn
      by (simp add: handleMouseMove_def pixelsToTime_def js_sub_Num Math_max_Num Math_min_Num
            Let_def en_def dt_def)
    have "0 \<le> a \<Longrightarrow>
      199 / 1000 \<le> round_ms ((if en < 0 then 0 else round_ms en) - (if a < 0 then 0 else round_ms a))"
    proof -
      assume "0 \<le> a"
      moreover have "a + 2 / 10 \<le> en" by (simp add: en_def)
      ultimately have "(if a < 0 then 0 else round_ms a) + 2 / 10 \<le> (if en < 0 then 0 else round_ms en)"
        by (rule committed_span_20)
      then show ?thesis by (rule span_to_ms_199)
    qed
    then show ?thesis
      using ResizeRight by (simp add: u no_update_def parseTime_formatTime)
  next
    case Playhead
    then show ?thesis using mv by (simp add: handleMouseMove_def Let_def split: option.splits)
  qed
qed

theorem drag_commit_min_span_witness:
  "(0::rat) < 60 \<and> \<bar>2::rat\<bar> \<le> 2 ^ 32 \<and> \<bar>5::rat\<bar> \<le> 2 ^ 32
   \<and> \<bar>(100::rat) - 700\<bar> \<le> 2 ^ 32 * 60
   \<and> handleMouseMove (Num 60) None (Num 10)
        (Some \<lparr>d_id = Some ''a'', d_type = Move, startX = Num 700,
               initialStart = Some (Num 2), initialEnd = Some (Num 5)\<rparr>) (Num 100)
       = Some (OnCaptionChange ''a''
           (no_update\<lparr>u_start := Some ''00:00:00.000'', u_end := Some ''00:00:00.100''\<rparr>))
   \<and> (\<exists>ps pe. parseTime (TString ''00:00:00.000'') = Num ps
          \<and> parseTime (TString ''00:00:00.100'') = Num pe \<and> 99 / 1000 \<le> round_ms (pe - ps))
   \<and> \<bar>(-200::rat) - 100\<bar> \<le> 2 ^ 32 * 60
   \<and> handleMouseMove (Num 60) None (Num 10)
        (Some \<lparr>d_id = Some ''a'', d_type = ResizeRight, startX = Num 100,
               initialStart = Some (Num 2), initialEnd = Some (Num 5)\<rparr>) (Num (-200))
       = Some (OnCaptionChange ''a''
           (no_update\<lparr>u_start := Some ''00:00:02.000'', u_end := Some ''00:00:02.200''\<rparr>))
   \<and> (\<exists>ps pe. parseTime (TString ''00:00:02.000'') = Num ps
          \<and> parseTime (TString ''00:00:02.200'') = Num pe \<and> 199 / 1000 \<le> round_ms (pe - ps))
   \<and> \<bar>(340::rat) - 100\<bar> \<le> 2 ^ 32 * 60
   \<and> handleMouseMove (Num 60) None (Num 10)
        (Some \<lparr>d_id = Some ''a'', d_type = ResizeLeft, startX = Num 100,
               initialStart = Some (Num 2), initialEnd = Some (Num 5)\<rparr>) (Num 340)
       = Some (OnCaptionChange ''a''
           (no_update\<lparr>u_start := Some ''00:00:04.800'', u_end := Some ''00:00:05.000''\<rparr>))
   \<and> (\<exists>ps pe. parseTime (TString ''00:00:04.800'') = Num ps
          \<and> parseTime (TString ''00:00:05.000'') = Num pe \<and> 199 / 1000 \<le> round_ms (pe - ps))"
proof -
  have z: "(0::rat) < 60" by simp
  have b: "\<bar>2::rat\<bar> \<le> 2 ^ 32" "\<bar>5::rat\<bar> \<le> 2 ^ 32" by simp_all
  have d1: "\<bar>(100::rat) - 700\<bar> \<le> 2 ^ 32 * 60" by simp
  have d2: "\<bar>(-200::rat) - 100\<bar> \<le> 2 ^ 32 * 60" by simp
  have d3: "\<bar>(340::rat) - 100\<bar> \<le> 2 ^ 32 * 60" by simp
  have m1: "handleMouseMove (Num 60) None (Num 10)
        (Some \<lparr>d_id = Some ''a'', d_type = Move, startX = Num 700,
               initialStart = Some (Num 2), initialEnd = Some (Num 5)\<rparr>) (Num 100)
       = Some (OnCaptionChange ''a''
           (no_update\<lparr>u_start := Some ''00:00:00.000'', u_end := Some ''00:00:00.100''\<rparr>))"
    by code_simp
  have m2: "handleMouseMove (Num 60) None (Num 10)
        (Some \<lparr>d_id = Some ''a'', d_type = ResizeRight, startX = Num 100,
               initialStart = Some (Num 2), initialEnd = Some (Num 5)\<rparr>) (Num (-200))
       = Some (OnCaptionChange ''a''
           (no_update\<lparr>u_start := Some ''00:00:02.000'', u_end := Some ''00:00:02.200''\<rparr>))"
    by code_simp
  have m3: "handleMouseMove (Num 60) None (Num 10)
        (Some \<lparr>d_id = Some ''a'', d_type = ResizeLeft, startX = Num 100,
               initialStart = Some (Num 2), initialEnd = Some (Num 5)\<rparr>) (Num 340)
       = Some (OnCaptionChange ''a''
           (no_update\<lparr>u_start := Some ''00:00:04.800'', u_end := Some ''00:00:05.000''\<rparr>))"
    by code_simp
  show ?thesis
    using drag_commit_min_span [OF z b d1 m1] drag_commit_min_span [OF z b d2 m2]
      drag_commit_min_span [OF z b d3 m3] z b d1 d2 d3 m1 m2 m3
    by (simp add: no_update_def)
qed

text \<open>
  C4 as stated fails for a move: the caption \<open>[1, 4]\<close> moved by -5 s is committed as
  \<open>[0, 0.1]\<close>, a span of 0.1 s. A left resize of that span \<open>[0, 0.1]\<close> commits it again,
  and a right resize of a caption whose texts read -5 and -4 commits two zero texts.
\<close>

theorem drag_commit_min_span_counterexample:
  "handleMouseMove (Num 100) None (Num 9)
     (Some (caption_onMouseDown (caption_example ''a'' ''00:00:01.000'' ''00:00:04.000'') Move (Num 600)))
     (Num 100)
   = Some (OnCaptionChange ''a''
       (no_update\<lparr>u_start := Some ''00:00:00.000'', u_end := Some ''00:00:00.100''\<rparr>))
   \<and> js_sub (parseTime (TString ''00:00:00.100'')) (parseTime (TString ''00:00:00.000'')) = Num (1 / 10)
   \<and> \<not> js_ge (js_sub (parseTime (TString ''00:00:00.100'')) (parseTime (TString ''00:00:00.000'')))
            (Num (2 / 10))
   \<and> handleMouseMove (Num 60) None (Num 9)
        (Some (caption_onMouseDown (caption_example ''a'' ''00:00:00.000'' ''00:00:00.100'')
                 ResizeLeft (Num 0)))
        (Num 30)
      = Some (OnCaptionChange ''a''
          (no_update\<lparr>u_start := Some ''00:00:00.000'', u_end := Some ''00:00:00.100''\<rparr>))
   \<and> handleMouseMove (Num 60) None (Num 9)
        (Some (caption_onMouseDown (caption_example ''a'' ''-5'' ''-4'') ResizeRight (Num 0)))
        (Num 0)
      = Some (OnCaptionChange ''a''
          (no_update\<lparr>u_start := Some ''00:00:00.000'', u_end := Some ''00:00:00.000''\<rparr>))"
  by code_simp

section \<open>A move clamped at zero\<close>

lemma parseTime_2: "parseTime (TString ''00:00:02.000'') = Num 2" by code_simp
lemma parseTime_5: "parseTime (TString ''00:00:05.000'') = Num 5" by code_simp
lemma formatTime_0: "formatTime (Num 0) = ''00:00:00.000''" by code_simp
lemma formatTime_tenth: "formatTime (Num (1 / 10)) = ''00:00:00.100''" by code_simp

text \<open>
  C5, as the code has it. For a caption spanning \<open>[2, 5]\<close>, a move whose pointer delta
  maps to -10 s commits the start 0 and the end 0.1: the start is clamped at zero and the
  end is the larger of start + 0.1 and end + delta, so the span shrinks to 0.1 s.
\<close>

theorem move_clamped_at_zero:
  assumes "z \<noteq> 0" and "x - x0 = - 10 * z"
    and "c_id c \<noteq> []" and "c_start c = ''00:00:02.000''" and "c_end c = ''00:00:05.000''"
  shows "handleMouseMove (Num z) container eff (Some (caption_onMouseDown c Move (Num x0))) (Num x)
         = Some (OnCaptionChange (c_id c)
             (no_update\<lparr>u_start := Some ''00:00:00.000'', u_end := Some ''00:00:00.100''\<rparr>))"
proof -
  have dt: "(x - x0) / z = - 10" using assms(1,2) by simp
  show ?thesis
    using assms(1,3)
    by (simp add: handleMouseMove_def caption_onMouseDown_def handleMouseDown_def pixelsToTime_def
          assms(4,5) parseTime_2 parseTime_5 js_sub_Num Math_max_Num dt Let_def
          formatTime_0 formatTime_tenth)
qed

theorem move_clamped_at_zero_witness:
  "(60::rat) \<noteq> 0 \<and> (100::rat) - 700 = - 10 * 60
   \<and> handleMouseMove (Num 60) None (Num 10)
        (Some (caption_onMouseDown (caption_example ''a'' ''00:00:02.000'' ''00:00:05.000'') Move (Num 700)))
        (Num 100)
      = Some (OnCaptionChange ''a''
          (no_update\<lparr>u_start := Some ''00:00:00.000'', u_end := Some ''00:00:00.100''\<rparr>))"
  using move_clamped_at_zero [of 60 100 700 "caption_example ''a'' ''00:00:02.000'' ''00:00:05.000''" None "Num 10"]
  by (simp add: caption_example_def)

text \<open>C5 as stated fails: the committed end is 0.1, not 3.\<close>

theorem move_clamped_counterexample:
  "handleMouseMove (Num 60) None (Num 10)
     (Some (caption_onMouseDown (caption_example ''a'' ''00:00:02.000'' ''00:00:05.000'') Move (Num 700)))
     (Num 100)
   = Some (OnCaptionChange ''a''
       (no_update\<lparr>u_start := Some ''00:00:00.000'', u_end := Some ''00:00:00.100''\<rparr>))
   \<and> pixelsToTime (Num 60) (js_sub (Num 100) (Num 700)) = Num (- 10)
   \<and> parseTime (TString ''00:00:00.100'') = Num (1 / 10)
   \<and> parseTime (TString ''00:00:00.100'') \<noteq> Num 3"
  by code_simp

section \<open>Round trip of the time codec\<close>



section \<open>The effective style\<close>

text \<open>
  C7. \<open>getEffectiveStyle\<close> merges field by field: without a caption or without a style
  override the result is the global style; with an override, every field the override
  holds is taken from it and every other field from the global style. For an override
  that holds only \<open>textColor = "#f00"\<close> the result is the global style with that text colour.
\<close>

theorem getEffectiveStyle_fieldwise:
  "getEffectiveStyle g None = g
   \<and> getEffectiveStyle g (Some (c\<lparr>c_style := None\<rparr>)) = g
   \<and> (let r = getEffectiveStyle g (Some (c\<lparr>c_style := Some ov\<rparr>))
      in fontFamily r = (case p_fontFamily ov of Some v \<Rightarrow> v | None \<Rightarrow> fontFamily g)
       \<and> fontSize r = (case p_fontSize ov of Some v \<Rightarrow> v | None \<Rightarrow> fontSize g)
       \<and> textColor r = (case p_textColor ov of Some v \<Rightarrow> v | None \<Rightarrow> textColor g)
       \<and> borderColor r = (case p_borderColor ov of Some v \<Rightarrow> v | None \<Rightarrow> borderColor g)
       \<and> borderWidth r = (case p_borderWidth ov of Some v \<Rightarrow> v | None \<Rightarrow> borderWidth g)
       \<and> backgroundColor r
           = (case p_backgroundColor ov of Some v \<Rightarrow> v | None \<Rightarrow> backgroundColor g)
       \<and> backgroundOpacity r
           = (case p_backgroundOpacity ov of Some v \<Rightarrow> v | None \<Rightarrow> backgroundOpacity g)
       \<and> animationType r
           = (case p_animationType ov of Some v \<Rightarrow> v | None \<Rightarrow> animationType g)
       \<and> positionY r = (case p_positionY ov of Some v \<Rightarrow> v | None \<Rightarrow> positionY g)
       \<and> positionX r = (case p_positionX ov of Some v \<Rightarrow> v | None \<Rightarrow> positionX g)
       \<and> fontWeight r = (case p_fontWeight ov of Some v \<Rightarrow> v | None \<Rightarrow> fontWeight g))
   \<and> getEffectiveStyle g (Some (c\<lparr>c_style := Some (no_style\<lparr>p_textColor := Some ''#f00''\<rparr>)\<rparr>))
       = g\<lparr>textColor := ''#f00''\<rparr>"
  by (simp add: getEffectiveStyle_def spread_style_def spread_field_def no_style_def Let_def)

theorem getEffectiveStyle_fieldwise_witness:
  "getEffectiveStyle style_example
     (Some (caption_example ''a'' ''00:00:00.000'' ''00:00:05.000''
              \<lparr>c_style := Some (no_style\<lparr>p_textColor := Some ''#f00''\<rparr>)\<rparr>))
   = style_example\<lparr>textColor := ''#f00''\<rparr>
   \<and> fontSize (getEffectiveStyle style_example
        (Some (caption_example ''a'' ''00:00:00.000'' ''00:00:05.000''
                 \<lparr>c_style := Some (no_style\<lparr>p_textColor := Some ''#f00''\<rparr>)\<rparr>))) = Num 32"
  using getEffectiveStyle_fieldwise
          [of style_example "caption_example ''a'' ''00:00:00.000'' ''00:00:05.000''"
              "no_style\<lparr>p_textColor := Some ''#f00''\<rparr>"]
  by (simp add: style_example_def)

section \<open>The active caption\<close>

lemma findCaptionAtTime_find: "findCaptionAtTime cs t = find (\<lambda>c. covers c t) cs"
  by (simp add: findCaptionAtTime_def covers_def js_ge_def Let_def)

lemma render_unfold:
  "render st cs r =
     (if \<not> ready r then []
      else (case canvas_size r of
              (w, h) \<Rightarrow>
                if js_gt w (Num 0) \<and> js_gt h (Num 0) then
                  DrawImage w h #
                    (case findCaptionAtTime cs (liveTime r) of
                       None \<Rightarrow> []
                     | Some a \<Rightarrow> [DrawCaption (c_text a) w h (getEffectiveStyle st (Some a))])
                else []))"
proof (cases "videoWidth r \<noteq> Num 0 \<and> \<not> isNaN (videoWidth r)
         \<and> (canvasWidth r \<noteq> videoWidth r \<or> canvasHeight r \<noteq> videoHeight r)")
  case True
  have c: "canvas_size r = (videoWidth r, videoHeight r)"
    unfolding canvas_size_def by (rule if_P [OF True])
  show ?thesis unfolding render_def Let_def c if_P [OF True] by simp
next
  case False
  have c: "canvas_size r = (canvasWidth r, canvasHeight r)"
    unfolding canvas_size_def by (rule if_not_P [OF False])
  show ?thesis unfolding render_def Let_def c if_not_P [OF False] by simp
qed

text \<open>
  C8. \<open>findCaptionAtTime\<close> returns nothing exactly when no caption's closed interval
  contains the time, and otherwise the first caption in list order whose interval does.
  A pass of \<open>render\<close> draws at most one caption, and only the one found at the live time
  of the video element, in its effective style. Whenever the pass draws the frame (the
  player is ready and the canvas has a positive size), it draws after the frame exactly
  the caption found at the live time, and no caption when none is found. For
  \<open>A = [0, 5]\<close> and \<open>B = [3, 8]\<close> at time 4 both intervals contain the time, the first in
  the list is the one found, and the pass at live time 4 draws the frame and the text of
  that caption alone.
\<close>

theorem active_caption_first_match:
  "(findCaptionAtTime cs t = None \<longleftrightarrow> (\<forall>c \<in> set cs. \<not> covers c t))
   \<and> (findCaptionAtTime cs t = Some c \<longleftrightarrow>
        (\<exists>i < length cs. cs ! i = c \<and> covers c t \<and> (\<forall>j < i. \<not> covers (cs ! j) t)))
   \<and> length (filter isDrawCaption (render st cs r)) \<le> 1
   \<and> (\<forall>txt w h s. DrawCaption txt w h s \<in> set (render st cs r) \<longrightarrow>
         (\<exists>a. findCaptionAtTime cs (liveTime r) = Some a \<and> txt = c_text a
               \<and> s = getEffectiveStyle st (Some a)))
   \<and> (ready r \<and> canvas_size r = (w, h) \<and> js_gt w (Num 0) \<and> js_gt h (Num 0) \<longrightarrow>
         render st cs r
           = DrawImage w h #
               (case findCaptionAtTime cs (liveTime r) of
                  None \<Rightarrow> []
                | Some a \<Rightarrow> [DrawCaption (c_text a) w h (getEffectiveStyle st (Some a))]))
   \<and> (let A = (caption_example ''A'' ''00:00:00.000'' ''00:00:05.000'')\<lparr>c_text := ''first''\<rparr>;
           B = (caption_example ''B'' ''00:00:03.000'' ''00:00:08.000'')\<lparr>c_text := ''second''\<rparr>
       in covers A (Num 4) \<and> covers B (Num 4)
          \<and> findCaptionAtTime [A, B] (Num 4) = Some A
          \<and> findCaptionAtTime [B, A] (Num 4) = Some B
          \<and> render style_example [A, B] render_example
              = [DrawImage (Num 1280) (Num 720),
                 DrawCaption ''first'' (Num 1280) (Num 720) style_example]
          \<and> render style_example [B, A] render_example
              = [DrawImage (Num 1280) (Num 720),
                 DrawCaption ''second'' (Num 1280) (Num 720) style_example])"
proof -
  have 1: "findCaptionAtTime cs t = None \<longleftrightarrow> (\<forall>c \<in> set cs. \<not> covers c t)"
    by (auto simp: findCaptionAtTime_find find_None_iff)
  have 2: "findCaptionAtTime cs t = Some c \<longleftrightarrow>
        (\<exists>i < length cs. cs ! i = c \<and> covers c t \<and> (\<forall>j < i. \<not> covers (cs ! j) t))"
    by (auto simp: findCaptionAtTime_find find_Some_iff)
  have 3: "length (filter isDrawCaption (render st cs r)) \<le> 1"
    by (simp add: render_def Let_def split: option.splits)
  have 4: "\<forall>txt w h s. DrawCaption txt w h s \<in> set (render st cs r) \<longrightarrow>
         (\<exists>a. findCaptionAtTime cs (liveTime r) = Some a \<and> txt = c_text a
               \<and> s = getEffectiveStyle st (Some a))"
    by (cases "findCaptionAtTime cs (liveTime r)") (auto simp: render_def Let_def)
  have 5: "ready r \<and> canvas_size r = (w, h) \<and> js_gt w (Num 0) \<and> js_gt h (Num 0) \<longrightarrow>
         render st cs r
           = DrawImage w h #
               (case findCaptionAtTime cs (liveTime r) of
                  None \<Rightarrow> []
                | Some a \<Rightarrow> [DrawCaption (c_text a) w h (getEffectiveStyle st (Some a))])"
    by (simp add: render_unfold)
  have 6: "let A = (caption_example ''A'' ''00:00:00.000'' ''00:00:05.000'')\<lparr>c_text := ''first''\<rparr>;
           B = (caption_example ''B'' ''00:00:03.000'' ''00:00:08.000'')\<lparr>c_text := ''second''\<rparr>
       in covers A (Num 4) \<and> covers B (Num 4)
          \<and> findCaptionAtTime [A, B] (Num 4) = Some A
          \<and> findCaptionAtTime [B, A] (Num 4) = Some B
          \<and> render style_example [A, B] render_example
              = [DrawImage (Num 1280) (Num 720),
                 DrawCaption ''first'' (Num 1280) (Num 720) style_example]
          \<and> render style_example [B, A] render_example
              = [DrawImage (Num 1280) (Num 720),
                 DrawCaption ''second'' (Num 1280) (Num 720) style_example]"
    by code_simp
  show ?thesis using 1 2 3 4 5 6 by blast
qed

theorem active_caption_first_match_witness:
  "ready render_example
   \<and> canvas_size render_example = (Num 1280, Num 720)
   \<and> js_gt (Num 1280) (Num 0) \<and> js_gt (Num 720) (Num 0)
   \<and> liveTime render_example = Num 4
   \<and> covers ((caption_example ''A'' ''00:00:00.000'' ''00:00:05.000'')\<lparr>c_text := ''first''\<rparr>) (Num 4)
   \<and> covers ((caption_example ''B'' ''00:00:03.000'' ''00:00:08.000'')\<lparr>c_text := ''second''\<rparr>) (Num 4)
   \<and> findCaptionAtTime
        [(caption_example ''A'' ''00:00:00.000'' ''00:00:05.000'')\<lparr>c_text := ''first''\<rparr>,
         (caption_example ''B'' ''00:00:03.000'' ''00:00:08.000'')\<lparr>c_text := ''second''\<rparr>] (Num 4)
      = Some ((caption_example ''A'' ''00:00:00.000'' ''00:00:05.000'')\<lparr>c_text := ''first''\<rparr>)
   \<and> render style_example
        [(caption_example ''A'' ''00:00:00.000'' ''00:00:05.000'')\<lparr>c_text := ''first''\<rparr>,
         (caption_example ''B'' ''00:00:03.000'' ''00:00:08.000'')\<lparr>c_text := ''second''\<rparr>]
        render_example
      = [DrawImage (Num 1280) (Num 720), DrawCaption ''first'' (Num 1280) (Num 720) style_example]"
proof -
  define A where "A = (caption_example ''A'' ''00:00:00.000'' ''00:00:05.000'')\<lparr>c_text := ''first''\<rparr>"
  define B where "B = (caption_example ''B'' ''00:00:03.000'' ''00:00:08.000'')\<lparr>c_text := ''second''\<rparr>"
  have r: "ready render_example" "canvas_size render_example = (Num 1280, Num 720)"
    "js_gt (Num 1280) (Num 0)" "js_gt (Num 720) (Num 0)" "liveTime render_example = Num 4"
    by (simp_all add: render_example_def canvas_size_def js_gt_def)
  have f: "findCaptionAtTime [A, B] (Num 4) = Some A"
    unfolding A_def B_def by code_simp
  have cB: "covers B (Num 4)"
    unfolding B_def by code_simp
  note inst = active_caption_first_match
      [of "[A, B]" "Num 4" A style_example render_example "Num 1280" "Num 720"]
  from inst have iff: "findCaptionAtTime [A, B] (Num 4) = Some A \<longleftrightarrow>
        (\<exists>i < length [A, B]. [A, B] ! i = A \<and> covers A (Num 4) \<and> (\<forall>j < i. \<not> covers ([A, B] ! j) (Num 4)))"
    by (rule conjunct2 [THEN conjunct1])
  from iffD1 [OF iff f] have cA: "covers A (Num 4)" by blast
  from inst have "ready render_example \<and> canvas_size render_example = (Num 1280, Num 720)
        \<and> js_gt (Num 1280) (Num 0) \<and> js_gt (Num 720) (Num 0) \<longrightarrow>
         render style_example [A, B] render_example
           = DrawImage (Num 1280) (Num 720) #
               (case findCaptionAtTime [A, B] (liveTime render_example) of
                  None \<Rightarrow> []
                | Some a \<Rightarrow> [DrawCaption (c_text a) (Num 1280) (Num 720)
                               (getEffectiveStyle style_example (Some a))])"
    by (rule conjunct2 [THEN conjunct2, THEN conjunct2, THEN conjunct2, THEN conjunct1])
  with r have "render style_example [A, B] render_example
           = DrawImage (Num 1280) (Num 720) #
               (case findCaptionAtTime [A, B] (Num 4) of
                  None \<Rightarrow> []
                | Some a \<Rightarrow> [DrawCaption (c_text a) (Num 1280) (Num 720)
                               (getEffectiveStyle style_example (Some a))])"
    by simp
  then have d: "render style_example [A, B] render_example
      = [DrawImage (Num 1280) (Num 720), DrawCaption ''first'' (Num 1280) (Num 720) style_example]"
    by (simp add: f) (simp add: A_def caption_example_def getEffectiveStyle_def)
  from r cA cB f d show ?thesis unfolding A_def B_def by simp
qed

section \<open>Caption ids\<close>

text \<open>
  Deleting and editing keep distinct ids distinct; adding and splitting do when the new
  id is not in the list yet.
\<close>

lemma ids_insert_sorted:
  "distinct (map f (insert_sorted cmp x ys)) \<longleftrightarrow> f x \<notin> f ` set ys \<and> distinct (map f ys)"
  by (induction ys) (auto simp: set_insert_sorted)

lemma ids_sort_acc:
  "distinct (map f (foldl (\<lambda>acc x. insert_sorted cmp x acc) acc xs))
     \<longleftrightarrow> distinct (map f (acc @ xs))"
proof (induction xs arbitrary: acc)
  case Nil
  show ?case by simp
next
  case (Cons x xs)
  have "distinct (map f (insert_sorted cmp x acc @ xs)) \<longleftrightarrow> distinct (map f (acc @ x # xs))"
    by (auto simp: ids_insert_sorted set_insert_sorted)
  with Cons [of "insert_sorted cmp x acc"] show ?case by simp
qed

lemma ids_sort_with: "distinct (map f (sort_with cmp xs)) \<longleftrightarrow> distinct (map f xs)"
  by (simp add: sort_with_def ids_sort_acc)

lemma ids_delete:
  "distinct (map c_id prev) \<Longrightarrow> distinct (map c_id (onCaptionDelete ident prev))"
  by (simp add: onCaptionDelete_def distinct_map_filter)

lemma ids_change:
  "u_id u = None \<Longrightarrow> map c_id (handleCaptionChange ident u prev) = map c_id prev"
  by (induction prev) (simp_all add: handleCaptionChange_def apply_updates_def spread_field_def)

lemma ids_add:
  assumes "distinct (map c_id prev)" and "''manual-'' @ toString_int now \<notin> c_id ` set prev"
  shows "distinct (map c_id (handleAddCaption ct dur now prev))"
  using assms by (simp add: handleAddCaption_def Let_def ids_sort_with)

lemma ids_split:
  assumes "distinct (map c_id cs)" and "ident @ ''-split'' \<notin> c_id ` set cs"
  shows "distinct (map c_id (handleSplitCaption ident cs))"
proof (cases "find (\<lambda>c. c_id c = ident) cs")
  case None
  then show ?thesis using assms(1) by (simp add: handleSplitCaption_def)
next
  case (Some c)
  then have cid: "c_id c = ident" by (auto simp: find_Some_iff)
  have same: "c_id (if c_id x = ident then c\<lparr>c_end := e\<rparr> else x) = c_id x" for x e
    by (simp add: cid)
  show ?thesis
    using assms Some
    by (simp add: handleSplitCaption_def Let_def ids_sort_with o_def same cid)
qed

text \<open>
  C9. Ids should stay pairwise distinct. Splitting gives the second part the id of the
  caption followed by \<open>-split\<close>, whatever ids exist already: splitting the caption \<open>a\<close>
  twice leaves two captions with the id \<open>a-split\<close>.
\<close>

theorem split_twice_duplicates_id:
  "distinct (map c_id [caption_example ''a'' ''00:00:00.000'' ''00:00:04.000''])
   \<and> map c_id (handleSplitCaption ''a'' (handleSplitCaption ''a''
          [caption_example ''a'' ''00:00:00.000'' ''00:00:04.000'']))
      = [''a'', ''a-split'', ''a-split'']
   \<and> \<not> distinct (map c_id (handleSplitCaption ''a'' (handleSplitCaption ''a''
          [caption_example ''a'' ''00:00:00.000'' ''00:00:04.000''])))"
  by code_simp

section \<open>Adding a caption by hand\<close>




end
